theory Spec2Isabelle
  imports Main
begin

section \<open>Strings and the regular expressions of the engine\<close>

text \<open>
  Source: \<^verbatim>\<open>src/server/resources/engine.ts\<close>, the last revision in the file
  (lines 556 to 956), and the calendar provider \<^verbatim>\<open>GoogleCalendarService\<close>
  (\<^verbatim>\<open>src/unnamed/part_001\<close>, lines 545 to 817).

  A JavaScript string is modelled as a \<^typ>\<open>string\<close> holding its UTF-8 bytes. The
  patterns of the engine only name ASCII characters, and no byte of a multi-byte UTF-8
  sequence is an ASCII character, so matching byte by byte finds the same substrings as
  matching code unit by code unit.
\<close>

subsection \<open>The pattern built by \<^verbatim>\<open>replaceVariable\<close>\<close>

text \<open>
  \<^verbatim>\<open>new RegExp(`\\$${variable}`, 'g')\<close>: the template literal yields a backslash, a
  dollar sign and then the text of \<^verbatim>\<open>variable\<close>. The result is read as a regular
  expression. The fragment modelled here has the atoms such a source can hold when
  \<^verbatim>\<open>variable\<close> is made of letters, digits and dollar signs: an escaped character
  (that character, literally), an unescaped \<^verbatim>\<open>$\<close> (the end-of-input assertion; the
  flags are \<^verbatim>\<open>'g'\<close> only, so not multiline) and a plain character.
\<close>

datatype atom = Lit char | EndAnchor

definition backslash :: char where
  "backslash = CHR 0x5C"

definition syntax_chars :: "char list" where
  "syntax_chars = ''^$.*+?()[]{}|'' @ [backslash]"

text \<open>
  \<open>compile\<close> reads a pattern source. \<open>None\<close> means that the source uses syntax outside
  the fragment (a quantifier, a group, a class, a character-class escape); it is never
  the answer for the pattern the engine builds.
\<close>

fun compile :: "string \<Rightarrow> atom list option" where
  "compile [] = Some []"
| "compile [c] =
     (if c = CHR ''$'' then Some [EndAnchor]
      else if c \<in> set syntax_chars then None
      else Some [Lit c])"
| "compile (c # d # cs) =
     (if c = backslash then
        (if d \<in> set syntax_chars then map_option ((#) (Lit d)) (compile cs) else None)
      else if c = CHR ''$'' then map_option ((#) EndAnchor) (compile (d # cs))
      else if c \<in> set syntax_chars then None
      else map_option ((#) (Lit c)) (compile (d # cs)))"

text \<open>
  \<open>match_atoms p s\<close> matches the atoms at the start of \<open>s\<close>, where \<open>s\<close> is the rest
  of the subject string from the current position. It returns what follows the match.
\<close>

fun match_atoms :: "atom list \<Rightarrow> string \<Rightarrow> string option" where
  "match_atoms [] s = Some s"
| "match_atoms (Lit c # p) [] = None"
| "match_atoms (Lit c # p) (x # xs) = (if x = c then match_atoms p xs else None)"
| "match_atoms (EndAnchor # p) s = (if s = [] then match_atoms p s else None)"

text \<open>
  \<^verbatim>\<open>String.prototype.replace\<close> with a global pattern and a replacement function:
  scan from the left; at a match emit the replacement and go on after the match (after
  an empty match, copy one character and go on behind it); elsewhere copy one character.
\<close>

function replace_global :: "atom list \<Rightarrow> string \<Rightarrow> string \<Rightarrow> string" where
  "replace_global p r s =
     (case match_atoms p s of
        Some rest \<Rightarrow>
          (if length rest < length s then r @ replace_global p r rest
           else r @ (case s of [] \<Rightarrow> [] | x # xs \<Rightarrow> x # replace_global p r xs))
      | None \<Rightarrow> (case s of [] \<Rightarrow> [] | x # xs \<Rightarrow> x # replace_global p r xs))"
  by pat_completeness auto
termination
  by (relation "measure (\<lambda>(p, r, s). length s)") auto

declare replace_global.simps [simp del]

text \<open>
  \<^verbatim>\<open>replaceVariable(text, variable, dynamicValue)\<close>, lines 887 to 897. The replacement
  is the function \<^verbatim>\<open>() => dynamicValue || ''\<close>, so no \<^verbatim>\<open>$&\<close> pattern is expanded in
  it, and an empty \<^verbatim>\<open>dynamicValue\<close> gives the empty string.
\<close>

definition replaceVariable :: "string \<Rightarrow> string \<Rightarrow> string \<Rightarrow> string option" where
  "replaceVariable text variable dynamicValue =
     map_option
       (\<lambda>p. replace_global p (if dynamicValue \<noteq> [] then dynamicValue else []) text)
       (compile (backslash # CHR ''$'' # variable))"

subsection \<open>The inline file marker\<close>

text \<open>
  \<^verbatim>\<open>/\[File attached: ([^\]]+)\]/\<close>: the literal opening, then one or more characters
  other than \<^verbatim>\<open>]\<close> (greedy, so the whole run up to the next \<^verbatim>\<open>]\<close>), then
  \<^verbatim>\<open>]\<close>. The run holds no \<^verbatim>\<open>]\<close>, so giving characters back never helps: the
  match at a position succeeds exactly when the run is not empty and a \<^verbatim>\<open>]\<close>
  follows it.
\<close>

definition marker_open :: string where
  "marker_open = ''[File attached: ''"

fun strip_prefix :: "string \<Rightarrow> string \<Rightarrow> string option" where
  "strip_prefix [] s = Some s"
| "strip_prefix (p # ps) [] = None"
| "strip_prefix (p # ps) (x # xs) = (if x = p then strip_prefix ps xs else None)"

text \<open>The match at the start of \<open>s\<close>: the captured id and what follows the marker.\<close>

definition match_marker :: "string \<Rightarrow> (string \<times> string) option" where
  "match_marker s =
     (case strip_prefix marker_open s of
        None \<Rightarrow> None
      | Some body \<Rightarrow>
          (let fid = takeWhile (\<lambda>c. c \<noteq> CHR '']'') body;
               rest = dropWhile (\<lambda>c. c \<noteq> CHR '']'') body
           in if fid = [] then None
              else (case rest of [] \<Rightarrow> None | _ # after \<Rightarrow> Some (fid, after))))"

text \<open>The leftmost match in \<open>s\<close>: the text before it, the captured id, the text after it.\<close>

fun find_marker :: "string \<Rightarrow> (string \<times> string \<times> string) option" where
  "find_marker [] = None"
| "find_marker (c # cs) =
     (case match_marker (c # cs) of
        Some (fid, after) \<Rightarrow> Some ([], fid, after)
      | None \<Rightarrow> map_option (\<lambda>(before, fid, after). (c # before, fid, after)) (find_marker cs))"

text \<open>\<^verbatim>\<open>extractFileIdFromContent\<close>, lines 900 to 903; \<open>None\<close> is \<^verbatim>\<open>null\<close>.\<close>

definition extractFileIdFromContent :: "string \<Rightarrow> string option" where
  "extractFileIdFromContent content' =
     map_option (\<lambda>(before, fid, after). fid) (find_marker content')"

text \<open>
  \<^verbatim>\<open>\s\<close> matches the white space and line terminators of ECMAScript: U+0009 to
  U+000D and U+0020 (one byte each), U+00A0 (two bytes), and U+1680, U+2000 to U+200A,
  U+2028, U+2029, U+202F, U+205F, U+3000 and U+FEFF (three bytes each).
\<close>

definition ws1 :: "char \<Rightarrow> bool" where
  "ws1 a = (a \<in> set [CHR 0x09, CHR 0x0A, CHR 0x0B, CHR 0x0C, CHR 0x0D, CHR 0x20])"

definition ws2 :: "char \<Rightarrow> char \<Rightarrow> bool" where
  "ws2 a b = (a = CHR 0xC2 \<and> b = CHR 0xA0)"

definition ws3 :: "char \<Rightarrow> char \<Rightarrow> char \<Rightarrow> bool" where
  "ws3 a b c =
     ((a = CHR 0xE1 \<and> b = CHR 0x9A \<and> c = CHR 0x80) \<or>
      (a = CHR 0xE2 \<and> b = CHR 0x80 \<and>
         (((0x80::nat) \<le> of_char c \<and> (of_char c :: nat) \<le> 0x8A) \<or>
          c \<in> set [CHR 0xA8, CHR 0xA9, CHR 0xAF])) \<or>
      (a = CHR 0xE2 \<and> b = CHR 0x81 \<and> c = CHR 0x9F) \<or>
      (a = CHR 0xE3 \<and> b = CHR 0x80 \<and> c = CHR 0x80) \<or>
      (a = CHR 0xEF \<and> b = CHR 0xBB \<and> c = CHR 0xBF))"

text \<open>\<^verbatim>\<open>\s*\<close> at the start of a string: what is left behind the white space.\<close>

fun skip_ws :: "string \<Rightarrow> string" where
  "skip_ws [] = []"
| "skip_ws [a] = (if ws1 a then [] else [a])"
| "skip_ws [a, b] = (if ws1 a then skip_ws [b] else if ws2 a b then [] else [a, b])"
| "skip_ws (a # b # c # r) =
     (if ws1 a then skip_ws (b # c # r)
      else if ws2 a b then skip_ws (c # r)
      else if ws3 a b c then skip_ws r
      else a # b # c # r)"

text \<open>
  \<^verbatim>\<open>userInput.replace(/\[File attached: [^\]]+\]\s*/, '')\<close>: no \<^verbatim>\<open>g\<close> flag, so
  only the leftmost marker goes, together with the white space behind it.
\<close>

definition remove_marker :: "string \<Rightarrow> string" where
  "remove_marker userInput =
     (case find_marker userInput of
        None \<Rightarrow> userInput
      | Some (before, fid, after) \<Rightarrow> before @ skip_ws after)"

section \<open>The conversation history\<close>

text \<open>
  The entries of the \<^verbatim>\<open>input\<close> array: a message with a role and a content (a string,
  an array of typed parts, or anything else), a function call as the completion service
  emitted it, and the output of a function call. Only a message has a \<^verbatim>\<open>role\<close>.
\<close>

datatype part = InputFile string | InputText string | OtherPart string

datatype content = Str string | Parts "part list" | Other

datatype item =
    Message string content
  | FunctionCall string string string
  | FunctionCallOutput string string

fun role_of :: "item \<Rightarrow> string option" where
  "role_of (Message r c) = Some r"
| "role_of (FunctionCall cid name args) = None"
| "role_of (FunctionCallOutput cid out) = None"

fun content_of :: "item \<Rightarrow> content option" where
  "content_of (Message r c) = Some c"
| "content_of (FunctionCall cid name args) = None"
| "content_of (FunctionCallOutput cid out) = None"

fun set_content :: "item \<Rightarrow> content \<Rightarrow> item" where
  "set_content (Message r c) c' = Message r c'"
| "set_content (FunctionCall cid name args) c' = FunctionCall cid name args"
| "set_content (FunctionCallOutput cid out) c' = FunctionCallOutput cid out"

definition is_system :: "item \<Rightarrow> bool" where
  "is_system m = (role_of m = Some ''system'')"

definition is_user :: "item \<Rightarrow> bool" where
  "is_user m = (role_of m = Some ''user'')"

definition is_assistant :: "item \<Rightarrow> bool" where
  "is_assistant m = (role_of m = Some ''assistant'')"

fun is_input_text :: "part \<Rightarrow> bool" where
  "is_input_text (InputText t) = True"
| "is_input_text p = False"

fun is_input_file :: "part \<Rightarrow> bool" where
  "is_input_file (InputFile f) = True"
| "is_input_file p = False"

text \<open>\<^verbatim>\<open>Array.prototype.findIndex\<close> and \<^verbatim>\<open>findLastIndex\<close>; \<open>None\<close> is \<^verbatim>\<open>-1\<close>.\<close>

fun findIndex :: "('a \<Rightarrow> bool) \<Rightarrow> 'a list \<Rightarrow> nat option" where
  "findIndex P [] = None"
| "findIndex P (x # xs) = (if P x then Some 0 else map_option Suc (findIndex P xs))"

fun findLastIndex :: "('a \<Rightarrow> bool) \<Rightarrow> 'a list \<Rightarrow> nat option" where
  "findLastIndex P [] = None"
| "findLastIndex P (x # xs) =
     (case findLastIndex P xs of
        Some i \<Rightarrow> Some (Suc i)
      | None \<Rightarrow> if P x then Some 0 else None)"

section \<open>Reconciling the history with the user turn\<close>

text \<open>
  An optional string used as a condition: \<^verbatim>\<open>undefined\<close>, \<^verbatim>\<open>null\<close> and the empty
  string are falsy. \<open>truthy_id\<close> keeps a truthy id and maps the rest to \<open>None\<close>;
  \<open>js_or a b\<close> is \<^verbatim>\<open>a || b\<close>.
\<close>

definition truthy_id :: "string option \<Rightarrow> string option" where
  "truthy_id x = (case x of None \<Rightarrow> None | Some f \<Rightarrow> if f = [] then None else Some f)"

definition js_or :: "string option \<Rightarrow> string option \<Rightarrow> string option" where
  "js_or a b = (case truthy_id a of Some f \<Rightarrow> Some f | None \<Rightarrow> b)"

text \<open>
  \<^verbatim>\<open>cleanUserInput\<close>, lines 618 and 654: the marker is removed when
  \<^verbatim>\<open>extractedFileId\<close> is truthy.
\<close>

definition cleanUserInput :: "string \<Rightarrow> string" where
  "cleanUserInput userInput =
     (case truthy_id (extractFileIdFromContent userInput) of
        Some f \<Rightarrow> remove_marker userInput
      | None \<Rightarrow> userInput)"

text \<open>
  The user message of lines 620 to 632 and of lines 690 to 702: with a truthy id, a file
  part and a text part; without, the user input as a plain string.
\<close>

definition userMessage :: "string option \<Rightarrow> string \<Rightarrow> string \<Rightarrow> item" where
  "userMessage fid text' userInput =
     (case truthy_id fid of
        Some f \<Rightarrow> Message ''user'' (Parts [InputFile f, InputText text'])
      | None \<Rightarrow> Message ''user'' (Str userInput))"

text \<open>Lines 668 to 686: no file id, so only the text of the last user message changes.\<close>

definition update_text :: "content \<Rightarrow> string \<Rightarrow> content" where
  "update_text c userInput =
     (case c of
        Str s \<Rightarrow> Str userInput
      | Parts ps \<Rightarrow>
          (case findIndex is_input_text ps of
             Some textIndex \<Rightarrow> Parts (ps[textIndex := InputText userInput])
           | None \<Rightarrow> Parts (ps @ [InputText userInput]))
      | Other \<Rightarrow> Str userInput)"

text \<open>Lines 650 to 687: the new content of the last user message.\<close>

definition rewrite_content :: "string \<Rightarrow> string option \<Rightarrow> content \<Rightarrow> content" where
  "rewrite_content userInput fileId c =
     (case truthy_id (js_or fileId (extractFileIdFromContent userInput)) of
        Some actualFileId \<Rightarrow> Parts [InputFile actualFileId, InputText (cleanUserInput userInput)]
      | None \<Rightarrow> update_text c userInput)"

fun rewrite_message :: "string \<Rightarrow> string option \<Rightarrow> item \<Rightarrow> item" where
  "rewrite_message userInput fileId (Message r c) =
     Message r (rewrite_content userInput fileId c)"
| "rewrite_message userInput fileId (FunctionCall cid name args) = FunctionCall cid name args"
| "rewrite_message userInput fileId (FunctionCallOutput cid out) = FunctionCallOutput cid out"

text \<open>
  Lines 613 to 708 of \<^verbatim>\<open>run\<close>: the history the completion service is called with, from
  the resolved prompt, the user input, the optional file id and the current history.
\<close>

definition reconcile :: "string \<Rightarrow> string \<Rightarrow> string option \<Rightarrow> item list \<Rightarrow> item list" where
  "reconcile finalPrompt userInput fileId input =
     (if input = [] then
        [Message ''system'' (Str finalPrompt),
         userMessage (js_or fileId (extractFileIdFromContent userInput))
           (cleanUserInput userInput) userInput]
      else
        (let input1 = Message ''system'' (Str finalPrompt) # filter (\<lambda>msg. \<not> is_system msg) input
         in case findLastIndex is_user input1 of
              Some lastUserMsgIndex \<Rightarrow>
                input1[lastUserMsgIndex :=
                  rewrite_message userInput fileId (input1 ! lastUserMsgIndex)]
            | None \<Rightarrow> input1 @ [userMessage fileId userInput userInput]))"

section \<open>Values, exceptions and the calendar provider\<close>

text \<open>
  What a \<^verbatim>\<open>throw\<close> carries: an \<^verbatim>\<open>Error\<close> instance with its message (a
  \<^verbatim>\<open>SyntaxError\<close> of \<^verbatim>\<open>JSON.parse\<close>, a \<^verbatim>\<open>TypeError\<close> of a property read, any
  other \<^verbatim>\<open>Error\<close>), or a value that is not an \<^verbatim>\<open>Error\<close>.
\<close>

datatype thrown = SyntaxError string | TypeError string | Error string | NonError

text \<open>\<^verbatim>\<open>error instanceof Error ? error.message : 'Unknown error'\<close>\<close>

fun error_message :: "thrown \<Rightarrow> string" where
  "error_message (SyntaxError m) = m"
| "error_message (TypeError m) = m"
| "error_message (Error m) = m"
| "error_message NonError = ''Unknown error''"

text \<open>
  A value \<^verbatim>\<open>JSON.parse\<close> returns. A number is kept as the text \<^verbatim>\<open>String\<close> renders it
  with (\<^verbatim>\<open>0\<close> for both zeros): the engine hands numbers on and never computes with
  them. An object is the list of its properties, one pair for each key. A property read
  gives an optional value, \<open>None\<close> for \<^verbatim>\<open>undefined\<close>.
\<close>

datatype json =
    JNull
  | JBool bool
  | JNum string
  | JStr string
  | JArr "json list"
  | JObj "(string \<times> json) list"

text \<open>
  \<^verbatim>\<open>args.key\<close> for the keys the engine reads (none of them is a property of a string,
  a number, a boolean or an array): a \<^verbatim>\<open>TypeError\<close> on \<^verbatim>\<open>null\<close>, with the message
  V8 gives.
\<close>

fun get_prop :: "json \<Rightarrow> string \<Rightarrow> thrown + json option" where
  "get_prop JNull key = Inl (TypeError (''Cannot read properties of null (reading '' @ key @ '')''))"
| "get_prop (JObj kvs) key = Inr (map_of kvs key)"
| "get_prop v key = Inr None"

fun props :: "json \<Rightarrow> string list \<Rightarrow> thrown + json option list" where
  "props args [] = Inr []"
| "props args (key # keys) =
     (case get_prop args key of
        Inl e \<Rightarrow> Inl e
      | Inr v \<Rightarrow> (case props args keys of Inl e \<Rightarrow> Inl e | Inr vs \<Rightarrow> Inr (v # vs)))"

fun join_comma :: "string list \<Rightarrow> string" where
  "join_comma [] = []"
| "join_comma [s] = s"
| "join_comma (s # t # ts) = s @ '','' @ join_comma (t # ts)"

text \<open>A value inside a template literal: JavaScript's \<^verbatim>\<open>ToString\<close>.\<close>

fun json_to_string :: "json \<Rightarrow> string" where
  "json_to_string JNull = ''null''"
| "json_to_string (JBool b) = (if b then ''true'' else ''false'')"
| "json_to_string (JNum n) = n"
| "json_to_string (JStr s) = s"
| "json_to_string (JArr vs) =
     join_comma (map (\<lambda>v. if v = JNull then [] else json_to_string v) vs)"
| "json_to_string (JObj kvs) = ''[object Object]''"

definition to_string :: "json option \<Rightarrow> string" where
  "to_string v = (case v of None \<Rightarrow> ''undefined'' | Some j \<Rightarrow> json_to_string j)"

text \<open>A value used as a condition.\<close>

fun truthy :: "json option \<Rightarrow> bool" where
  "truthy None = False"
| "truthy (Some JNull) = False"
| "truthy (Some (JBool b)) = b"
| "truthy (Some (JNum n)) = (n \<noteq> ''0'')"
| "truthy (Some (JStr s)) = (s \<noteq> [])"
| "truthy (Some (JArr vs)) = True"
| "truthy (Some (JObj kvs)) = True"

text \<open>
  What the engine does not define itself is a parameter: the prompt file, the clock,
  the completion service, \<^verbatim>\<open>JSON.parse\<close>, and the Google Calendar client with the
  host functions the provider formats dates with.
  \<^item> \<open>rawPrompt\<close>: the text of \<^verbatim>\<open>system-prompt.txt\<close>.
  \<^item> \<open>dateTimeInfo k\<close>: what \<^verbatim>\<open>getSaoPauloTodayInfo()\<close> returns in iteration \<open>k\<close>.
  \<^item> \<open>responses_create k\<close>: the outcome of the \<open>k\<close>-th call of
    \<^verbatim>\<open>openai.responses.create\<close>, the output items or the exception. Whatever the
    service computes from its input, a run sees one such sequence of outcomes.
  \<^item> \<open>json_parse\<close>: \<^verbatim>\<open>JSON.parse\<close>, the value or the \<^verbatim>\<open>SyntaxError\<close>.
  \<^item> \<open>events_insert\<close>, \<open>events_list\<close>, \<open>events_delete\<close>: the calls of the client,
    \<^verbatim>\<open>this.calendar.events\<close>.
  \<^item> \<open>schedule_request\<close>, \<open>schedule_text\<close> and their like: the statements of a
    \<^verbatim>\<open>try\<close> block before and after its call of the client. They take the parameters
    of the operation in the order the source lists them.
  A parameter is a function of its arguments, so two calls with the same arguments have
  the same outcome; no property below compares two calls of the client.
\<close>

datatype out_part = OutputText string | OtherOutPart string

datatype output_item =
    OutMessage "out_part list"
  | Reasoning
  | OutFunctionCall string string string
  | OtherOutput string

record env =
  rawPrompt :: string
  dateTimeInfo :: "nat \<Rightarrow> string"
  responses_create :: "nat \<Rightarrow> thrown + output_item list"
  json_parse :: "string \<Rightarrow> thrown + json"
  events_insert :: "json \<Rightarrow> thrown + json"
  events_list :: "json \<Rightarrow> thrown + json"
  events_delete :: "string \<Rightarrow> json option \<Rightarrow> string \<Rightarrow> thrown + unit"
  schedule_request :: "json option list \<Rightarrow> thrown + json"
  schedule_text :: "json option list \<Rightarrow> json \<Rightarrow> thrown + string"
  upcoming_request :: "json option list \<Rightarrow> thrown + json"
  upcoming_text :: "json \<Rightarrow> thrown + string"
  slots_request :: "json option list \<Rightarrow> thrown + json"
  slots_text :: "json option list \<Rightarrow> json \<Rightarrow> thrown + string"

text \<open>The marks the provider starts its answers with, U+274C and U+2705.\<close>

definition cross_mark :: string where
  "cross_mark = [CHR 0xE2, CHR 0x9D, CHR 0x8C]"

definition check_mark :: string where
  "check_mark = [CHR 0xE2, CHR 0x9C, CHR 0x85]"

text \<open>The \<^verbatim>\<open>catch\<close> clause of the four operations, with the operation's wording.\<close>

definition caught :: "string \<Rightarrow> thrown \<Rightarrow> string" where
  "caught what e = cross_mark @ '' Error '' @ what @ '': '' @ error_message e"

text \<open>
  \<^verbatim>\<open>scheduleMeeting\<close>, lines 572 to 639 of the provider: the whole body is one
  \<^verbatim>\<open>try\<close> block, so every exception of its three stages ends in its \<^verbatim>\<open>catch\<close>.
\<close>

definition scheduleMeeting :: "env \<Rightarrow> json option list \<Rightarrow> string" where
  "scheduleMeeting E params =
     (case schedule_request E params of
        Inl e \<Rightarrow> caught ''scheduling meeting'' e
      | Inr request \<Rightarrow>
          (case events_insert E request of
             Inl e \<Rightarrow> caught ''scheduling meeting'' e
           | Inr response \<Rightarrow>
               (case schedule_text E params response of
                  Inl e \<Rightarrow> caught ''scheduling meeting'' e
                | Inr result \<Rightarrow> result)))"

text \<open>\<^verbatim>\<open>getUpcomingEvents\<close>, lines 644 to 699.\<close>

definition getUpcomingEvents :: "env \<Rightarrow> json option list \<Rightarrow> string" where
  "getUpcomingEvents E params =
     (case upcoming_request E params of
        Inl e \<Rightarrow> caught ''getting events'' e
      | Inr request \<Rightarrow>
          (case events_list E request of
             Inl e \<Rightarrow> caught ''getting events'' e
           | Inr response \<Rightarrow>
               (case upcoming_text E response of
                  Inl e \<Rightarrow> caught ''getting events'' e
                | Inr result \<Rightarrow> result)))"

text \<open>\<^verbatim>\<open>findAvailableSlots\<close>, lines 704 to 787.\<close>

definition findAvailableSlots :: "env \<Rightarrow> json option list \<Rightarrow> string" where
  "findAvailableSlots E params =
     (case slots_request E params of
        Inl e \<Rightarrow> caught ''finding available slots'' e
      | Inr request \<Rightarrow>
          (case events_list E request of
             Inl e \<Rightarrow> caught ''finding available slots'' e
           | Inr response \<Rightarrow>
               (case slots_text E params response of
                  Inl e \<Rightarrow> caught ''finding available slots'' e
                | Inr result \<Rightarrow> result)))"

text \<open>
  \<^verbatim>\<open>cancelMeeting\<close>, lines 792 to 816: \<^verbatim>\<open>calendarId\<close> is never passed, so it is
  \<^verbatim>\<open>'primary'\<close>; \<^verbatim>\<open>sendUpdates\<close> is \<^verbatim>\<open>true\<close> when it is \<^verbatim>\<open>undefined\<close>.
\<close>

definition send_updates :: "json option \<Rightarrow> string" where
  "send_updates sendUpdates =
     (let sendUpdates' = (case sendUpdates of None \<Rightarrow> Some (JBool True) | Some v \<Rightarrow> Some v)
      in if truthy sendUpdates' then ''all'' else ''none'')"

definition cancelMeeting :: "env \<Rightarrow> json option \<Rightarrow> json option \<Rightarrow> string" where
  "cancelMeeting E eventId sendUpdates =
     (case events_delete E ''primary'' eventId (send_updates sendUpdates) of
        Inl e \<Rightarrow> caught ''cancelling meeting'' e
      | Inr u \<Rightarrow>
          check_mark @ '' Meeting cancelled successfully! Event ID: '' @ to_string eventId)"

text \<open>\<^verbatim>\<open>getPortfolioInfo\<close>, lines 906 to 913 of the engine.\<close>

definition getPortfolioInfo :: "json option \<Rightarrow> string" where
  "getPortfolioInfo portfolio = ''Portfolio: '' @ to_string portfolio"

section \<open>The agent loop\<close>

definition MAX_AGENT_LOOP :: nat where
  "MAX_AGENT_LOOP = 3"

text \<open>The names the \<^verbatim>\<open>switch\<close> of lines 780 to 843 has a case for.\<close>

definition registry :: "string list" where
  "registry =
     [''get_portfolio_info'', ''schedule_meeting'', ''get_upcoming_events'',
      ''find_available_slots'', ''cancel_meeting'']"

text \<open>
  Lines 777 to 843, behind \<^verbatim>\<open>JSON.parse\<close>: the \<^verbatim>\<open>switch\<close> on the name of the
  function, which gives \<^verbatim>\<open>toolResult\<close>. A case reads its properties from
  \<^verbatim>\<open>args\<close>, which throws when \<^verbatim>\<open>args\<close> is \<^verbatim>\<open>null\<close>; the default case reads
  none.
\<close>

definition tool_switch :: "env \<Rightarrow> string \<Rightarrow> json \<Rightarrow> thrown + string" where
  "tool_switch E name args =
     (if name = ''get_portfolio_info'' then
        (case get_prop args ''portfolio'' of
           Inl e \<Rightarrow> Inl e
         | Inr portfolio \<Rightarrow> Inr (getPortfolioInfo portfolio))
      else if name = ''schedule_meeting'' then
        (case props args [''title'', ''description'', ''startDateTime'', ''endDateTime'',
                          ''attendeeEmails'', ''location''] of
           Inl e \<Rightarrow> Inl e
         | Inr params \<Rightarrow> Inr (scheduleMeeting E params))
      else if name = ''get_upcoming_events'' then
        (case props args [''maxResults'', ''timeMin'', ''timeMax''] of
           Inl e \<Rightarrow> Inl e
         | Inr params \<Rightarrow> Inr (getUpcomingEvents E params))
      else if name = ''find_available_slots'' then
        (case props args [''date'', ''duration'', ''workingHoursStart'', ''workingHoursEnd''] of
           Inl e \<Rightarrow> Inl e
         | Inr params \<Rightarrow> Inr (findAvailableSlots E params))
      else if name = ''cancel_meeting'' then
        (case get_prop args ''eventId'' of
           Inl e \<Rightarrow> Inl e
         | Inr eventId \<Rightarrow>
             (case get_prop args ''sendUpdates'' of
                Inl e \<Rightarrow> Inl e
              | Inr sendUpdates \<Rightarrow> Inr (cancelMeeting E eventId sendUpdates)))
      else Inr (''ERROR: tool '' @ name @ '' not implemented.''))"

text \<open>
  The state of one iteration: the \<^verbatim>\<open>input\<close> array and the flag \<^verbatim>\<open>loopAgent\<close>.
  Lines 777 to 850: the dispatch of a call whose arguments have been parsed, that is
  the \<^verbatim>\<open>switch\<close> and the push of the \<^verbatim>\<open>function_call_output\<close> entry.
\<close>

type_synonym state = "item list \<times> bool"

definition dispatch :: "env \<Rightarrow> string \<Rightarrow> string \<Rightarrow> json \<Rightarrow> state \<Rightarrow> thrown + state" where
  "dispatch E call_id name args st =
     (case tool_switch E name args of
        Inl e \<Rightarrow> Inl e
      | Inr toolResult \<Rightarrow> Inr (fst st @ [FunctionCallOutput call_id toolResult], snd st))"

text \<open>Lines 752 to 761: a part of a message item.\<close>

fun handle_part :: "out_part \<Rightarrow> state \<Rightarrow> state" where
  "handle_part (OutputText t) (input, loopAgent) =
     (input @ [Message ''assistant'' (Str t)], False)"
| "handle_part (OtherOutPart ty) st = st"

text \<open>Lines 749 to 854: one item of \<^verbatim>\<open>response.output\<close>.\<close>

fun handle_output :: "env \<Rightarrow> output_item \<Rightarrow> state \<Rightarrow> thrown + state" where
  "handle_output E (OutMessage parts) st = Inr (fold handle_part parts st)"
| "handle_output E Reasoning st = Inr st"
| "handle_output E (OutFunctionCall call_id name arguments) st =
     (case json_parse E arguments of
        Inl e \<Rightarrow> Inl e
      | Inr args \<Rightarrow> dispatch E call_id name args st)"
| "handle_output E (OtherOutput ty) (input, loopAgent) = Inr (input, False)"

text \<open>Lines 746 to 855: the items in their order; an exception ends the loop.\<close>

fun handle_outputs :: "env \<Rightarrow> output_item list \<Rightarrow> state \<Rightarrow> thrown + state" where
  "handle_outputs E [] st = Inr st"
| "handle_outputs E (out # outs) st =
     (case handle_output E out st of
        Inl e \<Rightarrow> Inl e
      | Inr st' \<Rightarrow> handle_outputs E outs st')"

text \<open>Lines 731 to 743: the function calls of a response, as entries of the history.\<close>

fun function_calls :: "output_item list \<Rightarrow> item list" where
  "function_calls [] = []"
| "function_calls (OutFunctionCall call_id name arguments # outs) =
     FunctionCall call_id name arguments # function_calls outs"
| "function_calls (out # outs) = function_calls outs"

text \<open>Lines 730 to 855: what an iteration does with the response.\<close>

definition process_response :: "env \<Rightarrow> output_item list \<Rightarrow> state \<Rightarrow> thrown + state" where
  "process_response E response st =
     handle_outputs E response (fst st @ function_calls response, snd st)"

text \<open>
  Lines 601 to 609: the prompt of iteration \<open>k\<close>. \<open>replaceVariable\<close> answers \<open>Some\<close>
  for the variable \<^verbatim>\<open>'$dateTime'\<close> (lemma \<open>replaceVariable_dateTime\<close> below), so the
  second case is never taken.
\<close>

definition finalPrompt :: "env \<Rightarrow> nat \<Rightarrow> string" where
  "finalPrompt E k =
     (case replaceVariable (rawPrompt E) ''$dateTime'' (dateTimeInfo E k) of
        Some result \<Rightarrow> result
      | None \<Rightarrow> rawPrompt E)"

text \<open>
  Lines 590 to 862, the \<^verbatim>\<open>while\<close> loop of \<^verbatim>\<open>run\<close>. The result is the value of
  \<^verbatim>\<open>loopCounter\<close> when the loop is left, with the returned array or the exception
  that left it. The counter is incremented at the start of an iteration and the
  completion service is called once in each, before anything in the iteration can
  throw: the counter at the end is the number of calls of the completion service.
\<close>

function agent_loop ::
  "env \<Rightarrow> string \<Rightarrow> string option \<Rightarrow> bool \<Rightarrow> nat \<Rightarrow> item list \<Rightarrow> nat \<times> (thrown + item list)"
where
  "agent_loop E userInput fileId loopAgent loopCounter input =
     (if loopAgent \<and> loopCounter < MAX_AGENT_LOOP then
        (case responses_create E (Suc loopCounter) of
           Inl e \<Rightarrow> (Suc loopCounter, Inl e)
         | Inr response \<Rightarrow>
             (case process_response E response
                     (reconcile (finalPrompt E (Suc loopCounter)) userInput fileId input,
                      loopAgent) of
                Inl e \<Rightarrow> (Suc loopCounter, Inl e)
              | Inr st \<Rightarrow> agent_loop E userInput fileId (snd st) (Suc loopCounter) (fst st)))
      else (loopCounter, Inr input))"
  by pat_completeness auto
termination
  by (relation "measure (\<lambda>(E, userInput, fileId, loopAgent, loopCounter, input).
        MAX_AGENT_LOOP - loopCounter)") auto

declare agent_loop.simps [simp del]

text \<open>\<^verbatim>\<open>run(userInput, input, fileId)\<close>, lines 577 to 864.\<close>

definition run ::
  "env \<Rightarrow> string \<Rightarrow> item list \<Rightarrow> string option \<Rightarrow> nat \<times> (thrown + item list)" where
  "run E userInput input fileId = agent_loop E userInput fileId True 0 input"

section \<open>Notions the properties are stated with\<close>

text \<open>
  An item of a response that is a function call, and one whose handling does not throw:
  its arguments parse and the \<^verbatim>\<open>switch\<close> gives a result (it throws only when a
  registered tool gets \<^verbatim>\<open>null\<close> for its arguments).
\<close>

fun is_function_call :: "output_item \<Rightarrow> bool" where
  "is_function_call (OutFunctionCall call_id name arguments) = True"
| "is_function_call out = False"

fun runs_tool :: "env \<Rightarrow> output_item \<Rightarrow> bool" where
  "runs_tool E (OutFunctionCall call_id name arguments) =
     (case json_parse E arguments of
        Inl e \<Rightarrow> False
      | Inr args \<Rightarrow> (case tool_switch E name args of Inl e \<Rightarrow> False | Inr r \<Rightarrow> True))"
| "runs_tool E out = False"

text \<open>The call ids of the function calls of a response, in the order of the response.\<close>

fun call_ids :: "output_item list \<Rightarrow> string list" where
  "call_ids [] = []"
| "call_ids (OutFunctionCall call_id name arguments # outs) = call_id # call_ids outs"
| "call_ids (out # outs) = call_ids outs"

text \<open>
  The entries of a history that are not messages, in the order of the history: a
  function call or the output of one, with its call id.
\<close>

datatype tag = Call string | Result string

fun tool_tags :: "item list \<Rightarrow> tag list" where
  "tool_tags [] = []"
| "tool_tags (Message r c # xs) = tool_tags xs"
| "tool_tags (FunctionCall call_id name arguments # xs) = Call call_id # tool_tags xs"
| "tool_tags (FunctionCallOutput call_id out # xs) = Result call_id # tool_tags xs"

fun is_call_entry :: "item \<Rightarrow> bool" where
  "is_call_entry (FunctionCall call_id name arguments) = True"
| "is_call_entry m = False"

text \<open>The items of the \<open>k\<close>-th response; none when the call of the service threw.\<close>

definition response_of :: "env \<Rightarrow> nat \<Rightarrow> output_item list" where
  "response_of E k = (case responses_create E k of Inl e \<Rightarrow> [] | Inr response \<Rightarrow> response)"

section \<open>Sample environments\<close>

text \<open>
  The concrete runs below use these. \<open>sample_parse\<close> stands for \<^verbatim>\<open>JSON.parse\<close> on
  the four payloads of the examples: \<^verbatim>\<open>{}\<close> is the empty object, \<^verbatim>\<open>null\<close> is
  \<^verbatim>\<open>null\<close>, \<^verbatim>\<open>{"eventId":"evt_1"}\<close> is an object with one property, and
  \<^verbatim>\<open>{\<close> is not JSON. In \<open>sample_env\<close> every call of the calendar client fails
  with a network error; its parameter is the sequence of outcomes of the completion
  service.
\<close>

definition cancel_payload :: string where
  "cancel_payload =
     ''{'' @ [CHR 0x22] @ ''eventId'' @ [CHR 0x22] @ '':'' @ [CHR 0x22] @ ''evt_1'' @ [CHR 0x22] @ ''}''"

definition sample_parse :: "string \<Rightarrow> thrown + json" where
  "sample_parse s =
     (if s = ''{}'' then Inr (JObj [])
      else if s = ''null'' then Inr JNull
      else if s = cancel_payload then Inr (JObj [(''eventId'', JStr ''evt_1'')])
      else Inl (SyntaxError ''Unexpected end of JSON input''))"

definition sample_env :: "(nat \<Rightarrow> thrown + output_item list) \<Rightarrow> env" where
  "sample_env service =
     \<lparr> rawPrompt = ''Agora: $dateTime'',
       dateTimeInfo = (\<lambda>k. ''Hoje''),
       responses_create = service,
       json_parse = sample_parse,
       events_insert = (\<lambda>request. Inl (Error ''network error'')),
       events_list = (\<lambda>request. Inl (Error ''network error'')),
       events_delete = (\<lambda>calendarId eventId sendUpdates. Inl (Error ''network error'')),
       schedule_request = (\<lambda>params. Inr JNull),
       schedule_text = (\<lambda>params response. Inr ''scheduled''),
       upcoming_request = (\<lambda>params. Inr JNull),
       upcoming_text = (\<lambda>response. Inr ''events''),
       slots_request = (\<lambda>params. Inr JNull),
       slots_text = (\<lambda>params response. Inr ''slots'') \<rparr>"

text \<open>Sequences of outcomes of the completion service.\<close>

definition only_call :: "string \<Rightarrow> string \<Rightarrow> nat \<Rightarrow> thrown + output_item list" where
  "only_call name arguments k = Inr [OutFunctionCall ''call_1'' name arguments]"

definition call_then_text :: "string \<Rightarrow> string \<Rightarrow> nat \<Rightarrow> thrown + output_item list" where
  "call_then_text name arguments k =
     (if k = 1 then Inr [OutFunctionCall ''call_1'' name arguments]
      else Inr [OutMessage [OutputText ''Done.'']])"

definition two_calls_then_text :: "nat \<Rightarrow> thrown + output_item list" where
  "two_calls_then_text k =
     (if k = 1 then
        Inr [OutFunctionCall ''call_a'' ''get_portfolio_info'' ''{}'', Reasoning,
             OutFunctionCall ''call_b'' ''get_weather'' ''null'']
      else Inr [OutMessage [OutputText ''Done.'']])"

definition text_only :: "nat \<Rightarrow> thrown + output_item list" where
  "text_only k = Inr [OutMessage [OutputText ''Done.'']]"

lemmas sample_defs =
  sample_env_def sample_parse_def cancel_payload_def only_call_def call_then_text_def
  two_calls_then_text_def text_only_def

section \<open>The prompt template\<close>

lemma compile_dateTime:
  "compile (backslash # CHR ''$'' # ''$dateTime'') =
     Some [Lit CHR ''$'', EndAnchor, Lit CHR ''d'', Lit CHR ''a'', Lit CHR ''t'', Lit CHR ''e'',
           Lit CHR ''T'', Lit CHR ''i'', Lit CHR ''m'', Lit CHR ''e'']"
  by (simp add: backslash_def syntax_chars_def)

lemma dollar_end_never_matches:
  "match_atoms (Lit c # EndAnchor # Lit d # p) s = None"
  by (cases s) auto

lemma replace_global_no_match:
  "(\<And>t. match_atoms p t = None) \<Longrightarrow> replace_global p r s = s"
  by (induction s) (simp_all add: replace_global.simps)

lemma replaceVariable_dateTime:
  "replaceVariable text ''$dateTime'' dynamicValue = Some text"
  unfolding replaceVariable_def compile_dateTime
  by (simp add: replace_global_no_match dollar_end_never_matches)

lemma finalPrompt_raw: "finalPrompt E k = rawPrompt E"
  by (simp add: finalPrompt_def replaceVariable_dateTime)

text \<open>
  Claim C1 says that \<^verbatim>\<open>replaceVariable\<close>, called as \<^verbatim>\<open>run\<close> calls it, returns the
  template with every \<^verbatim>\<open>$dateTime\<close> replaced by the date and time. The call passes
  the variable with its dollar sign, so the pattern is \<^verbatim>\<open>\$$dateTime\<close>: a literal
  dollar sign, the end of the input, and then \<^verbatim>\<open>dateTime\<close>, which no string
  matches. On the template \<^verbatim>\<open>Agora: $dateTime\<close> and the date \<^verbatim>\<open>Hoje\<close> the
  function returns the template as it was, placeholder included.
\<close>

theorem replaceVariable_keeps_placeholder:
  "replaceVariable ''Agora: $dateTime'' ''$dateTime'' ''Hoje'' = Some ''Agora: $dateTime''"
  by (rule replaceVariable_dateTime)

section \<open>Properties of the reconciliation\<close>

lemma role_of_rewrite_message [simp]: "role_of (rewrite_message u f m) = role_of m"
  by (cases m) simp_all

lemma roles_rewrite_at:
  "map role_of (xs[i := rewrite_message u f (xs ! i)]) = map role_of xs"
  by (cases "i < length xs") (simp_all add: map_update list_update_same_conv list_update_beyond)

lemma is_system_fun: "is_system = (\<lambda>m. role_of m = Some ''system'')"
  by (rule ext) (simp add: is_system_def)

lemma role_of_userMessage [simp]: "role_of (userMessage fid t u) = Some ''user''"
  by (simp add: userMessage_def split: option.split)

text \<open>The roles after the reconciliation: \<^verbatim>\<open>system\<close> first and nowhere else.\<close>

lemma roles_reconcile:
  "\<exists>rs. map role_of (reconcile p u f h) = Some ''system'' # rs \<and> Some ''system'' \<notin> set rs"
proof (cases "h = []")
  case True
  then show ?thesis
    by (simp add: reconcile_def)
next
  case False
  let ?xs = "Message ''system'' (Str p) # filter (\<lambda>msg. \<not> is_system msg) h"
  have base: "map role_of ?xs = Some ''system'' # map role_of (filter (\<lambda>msg. \<not> is_system msg) h)"
    by simp
  have none: "Some ''system'' \<notin> set (map role_of (filter (\<lambda>msg. \<not> is_system msg) h))"
    by (auto simp: is_system_def)
  show ?thesis
  proof (cases "findLastIndex is_user ?xs")
    case None
    with False have "map role_of (reconcile p u f h) =
        Some ''system'' # (map role_of (filter (\<lambda>msg. \<not> is_system msg) h) @ [Some ''user''])"
      by (simp add: reconcile_def Let_def)
    with none show ?thesis by auto
  next
    case (Some i)
    with False have "reconcile p u f h = ?xs[i := rewrite_message u f (?xs ! i)]"
      by (simp add: reconcile_def Let_def)
    then have "map role_of (reconcile p u f h) = map role_of ?xs"
      by (simp only: roles_rewrite_at)
    with base none show ?thesis by auto
  qed
qed

text \<open>
  Claim C2: whatever the history, the user input and the file id, the reconciled history
  is not empty, its entry at index 0 has the role \<^verbatim>\<open>system\<close>, and exactly one of its
  entries has that role.
\<close>

theorem reconcile_one_system:
  "reconcile p u f h \<noteq> [] \<and>
   is_system (reconcile p u f h ! 0) \<and>
   length (filter is_system (reconcile p u f h)) = 1"
proof -
  obtain rs where rs: "map role_of (reconcile p u f h) = Some ''system'' # rs"
    and no: "Some ''system'' \<notin> set rs"
    using roles_reconcile [of p u f h] by auto
  from rs have ne: "reconcile p u f h \<noteq> []" by auto
  from rs ne have first: "role_of (reconcile p u f h ! 0) = Some ''system''"
    by (metis nth_Cons_0 nth_map length_greater_0_conv)
  have "length (filter is_system (reconcile p u f h)) =
        length (filter (\<lambda>r. r = Some ''system'') (map role_of (reconcile p u f h)))"
    by (simp add: filter_map comp_def is_system_fun)
  also have "\<dots> = 1" using no by (auto simp: rs filter_empty_conv)
  finally show ?thesis using ne first by (simp add: is_system_def)
qed

section \<open>Properties of the dispatch\<close>

lemma tool_switch_unregistered:
  "name \<notin> set registry \<Longrightarrow>
   tool_switch E name args = Inr (''ERROR: tool '' @ name @ '' not implemented.'')"
  by (simp add: tool_switch_def registry_def)

text \<open>
  Claim C5: the dispatch of a call whose name is none of the five registered names does
  not throw, whatever the parsed arguments are (\<^verbatim>\<open>null\<close> included): it pushes a
  \<^verbatim>\<open>function_call_output\<close> entry with the call id of the call and the output
  \<^verbatim>\<open>ERROR: tool <name> not implemented.\<close>, and leaves \<^verbatim>\<open>loopAgent\<close> as it was.
  The dispatch is what follows \<^verbatim>\<open>JSON.parse\<close>; claim C6 covers a payload that does
  not parse.
\<close>

theorem dispatch_unregistered:
  "name \<notin> set registry \<Longrightarrow>
   dispatch E call_id name args (input, loopAgent) =
     Inr (input @ [FunctionCallOutput call_id (''ERROR: tool '' @ name @ '' not implemented.'')],
          loopAgent)"
  by (simp add: dispatch_def tool_switch_unregistered)

theorem dispatch_unregistered_witness:
  "''get_weather'' \<notin> set registry \<and>
   dispatch (sample_env (\<lambda>k. Inr [])) ''call_1'' ''get_weather'' JNull
       ([Message ''user'' (Str ''hi'')], True) =
     Inr ([Message ''user'' (Str ''hi''),
           FunctionCallOutput ''call_1'' ''ERROR: tool get_weather not implemented.''], True)"
proof -
  have h: "''get_weather'' \<notin> set registry" by (simp add: registry_def)
  show ?thesis
    using h dispatch_unregistered [OF h, of "sample_env (\<lambda>k. Inr [])" "''call_1''" JNull
        "[Message ''user'' (Str ''hi'')]" True]
    by simp
qed

text \<open>An item whose arguments do not parse makes the handling of its response throw.\<close>

lemma handle_outputs_malformed:
  "OutFunctionCall call_id name arguments \<in> set outs \<Longrightarrow> json_parse E arguments = Inl e \<Longrightarrow>
   \<exists>e'. handle_outputs E outs st = Inl e'"
proof (induction outs arbitrary: st)
  case Nil
  then show ?case by simp
next
  case (Cons out outs)
  show ?case
  proof (cases "handle_output E out st")
    case (Inl e1)
    then show ?thesis by simp
  next
    case (Inr st')
    with Cons.prems have "out \<noteq> OutFunctionCall call_id name arguments"
      by auto
    with Cons.prems have "OutFunctionCall call_id name arguments \<in> set outs" by auto
    from Cons.IH [OF this Cons.prems(2)] Inr show ?thesis by simp
  qed
qed

section \<open>Properties of the loop\<close>

lemma agent_loop_stop:
  "\<not> (loopAgent \<and> loopCounter < MAX_AGENT_LOOP) \<Longrightarrow>
   agent_loop E u f loopAgent loopCounter input = (loopCounter, Inr input)"
  by (subst agent_loop.simps) auto

lemma agent_loop_service_error:
  "loopAgent \<Longrightarrow> loopCounter < MAX_AGENT_LOOP \<Longrightarrow>
   responses_create E (Suc loopCounter) = Inl e \<Longrightarrow>
   agent_loop E u f loopAgent loopCounter input = (Suc loopCounter, Inl e)"
  by (subst agent_loop.simps) simp

lemma agent_loop_process_error:
  "loopAgent \<Longrightarrow> loopCounter < MAX_AGENT_LOOP \<Longrightarrow>
   responses_create E (Suc loopCounter) = Inr response \<Longrightarrow>
   process_response E response
     (reconcile (finalPrompt E (Suc loopCounter)) u f input, loopAgent) = Inl e \<Longrightarrow>
   agent_loop E u f loopAgent loopCounter input = (Suc loopCounter, Inl e)"
  by (subst agent_loop.simps) simp

lemma agent_loop_step:
  "loopAgent \<Longrightarrow> loopCounter < MAX_AGENT_LOOP \<Longrightarrow>
   responses_create E (Suc loopCounter) = Inr response \<Longrightarrow>
   process_response E response
     (reconcile (finalPrompt E (Suc loopCounter)) u f input, loopAgent) = Inr (input', loopAgent') \<Longrightarrow>
   agent_loop E u f loopAgent loopCounter input =
     agent_loop E u f loopAgent' (Suc loopCounter) input'"
  by (subst agent_loop.simps) simp

text \<open>The four ways an iteration can go.\<close>

lemma agent_loop_cases:
  obtains
    (stop) "\<not> (loopAgent \<and> loopCounter < MAX_AGENT_LOOP)"
      "agent_loop E u f loopAgent loopCounter input = (loopCounter, Inr input)"
  | (service_error) e where "loopAgent" "loopCounter < MAX_AGENT_LOOP"
      "responses_create E (Suc loopCounter) = Inl e"
      "agent_loop E u f loopAgent loopCounter input = (Suc loopCounter, Inl e)"
  | (process_error) response e where "loopAgent" "loopCounter < MAX_AGENT_LOOP"
      "responses_create E (Suc loopCounter) = Inr response"
      "process_response E response
         (reconcile (finalPrompt E (Suc loopCounter)) u f input, loopAgent) = Inl e"
      "agent_loop E u f loopAgent loopCounter input = (Suc loopCounter, Inl e)"
  | (step) response input' loopAgent' where "loopAgent" "loopCounter < MAX_AGENT_LOOP"
      "responses_create E (Suc loopCounter) = Inr response"
      "process_response E response
         (reconcile (finalPrompt E (Suc loopCounter)) u f input, loopAgent) = Inr (input', loopAgent')"
      "agent_loop E u f loopAgent loopCounter input =
         agent_loop E u f loopAgent' (Suc loopCounter) input'"
proof (cases "loopAgent \<and> loopCounter < MAX_AGENT_LOOP")
  case False
  then show ?thesis using stop agent_loop_stop by blast
next
  case True
  show ?thesis
  proof (cases "responses_create E (Suc loopCounter)")
    case (Inl e)
    with True show ?thesis using service_error agent_loop_service_error by blast
  next
    case (Inr response)
    show ?thesis
    proof (cases "process_response E response
         (reconcile (finalPrompt E (Suc loopCounter)) u f input, loopAgent)")
      case (Inl e)
      with True Inr show ?thesis using process_error agent_loop_process_error by blast
    next
      case Inr2: (Inr st)
      obtain input' loopAgent' where "st = (input', loopAgent')" by (cases st)
      with True Inr Inr2 show ?thesis using step agent_loop_step by blast
    qed
  qed
qed

lemma agent_loop_counter_ge: "loopCounter \<le> fst (agent_loop E u f loopAgent loopCounter input)"
proof (induction "MAX_AGENT_LOOP - loopCounter" arbitrary: loopCounter loopAgent input)
  case 0
  then show ?case by (simp add: agent_loop_stop)
next
  case (Suc n)
  show ?case
  proof (cases rule: agent_loop_cases [of loopAgent loopCounter E u f input])
    case (step response input' loopAgent')
    from Suc.hyps(2) have "n = MAX_AGENT_LOOP - Suc loopCounter" by simp
    from Suc.hyps(1) [OF this, of loopAgent' input'] step(5) show ?thesis by simp
  qed simp_all
qed

lemma agent_loop_counter_le:
  "fst (agent_loop E u f loopAgent loopCounter input) \<le> max loopCounter MAX_AGENT_LOOP"
proof (induction "MAX_AGENT_LOOP - loopCounter" arbitrary: loopCounter loopAgent input)
  case 0
  then show ?case by (simp add: agent_loop_stop)
next
  case (Suc n)
  show ?case
  proof (cases rule: agent_loop_cases [of loopAgent loopCounter E u f input])
    case (step response input' loopAgent')
    from Suc.hyps(2) have "n = MAX_AGENT_LOOP - Suc loopCounter" by simp
    from Suc.hyps(1) [OF this, of loopAgent' input'] step show ?thesis by simp
  qed simp_all
qed

lemma process_response_malformed:
  "OutFunctionCall call_id name arguments \<in> set response \<Longrightarrow> json_parse E arguments = Inl e \<Longrightarrow>
   \<exists>e'. process_response E response st = Inl e'"
  by (simp add: process_response_def handle_outputs_malformed)

lemma agent_loop_malformed:
  assumes "responses_create E k = Inr response"
    and "OutFunctionCall call_id name arguments \<in> set response"
    and "json_parse E arguments = Inl e"
  shows "loopCounter < k \<Longrightarrow> k \<le> fst (agent_loop E u f loopAgent loopCounter input) \<Longrightarrow>
         \<exists>e'. snd (agent_loop E u f loopAgent loopCounter input) = Inl e'"
proof (induction "MAX_AGENT_LOOP - loopCounter" arbitrary: loopCounter loopAgent input)
  case 0
  then show ?case by (simp add: agent_loop_stop)
next
  case (Suc n)
  show ?case
  proof (cases rule: agent_loop_cases [of loopAgent loopCounter E u f input])
    case stop
    with Suc.prems show ?thesis by simp
  next
    case (service_error e)
    then show ?thesis by simp
  next
    case (process_error response e)
    then show ?thesis by simp
  next
    case (step response' input' loopAgent')
    show ?thesis
    proof (cases "Suc loopCounter = k")
      case True
      with assms(1) step(3) have "response' = response" by simp
      with process_response_malformed [OF assms(2,3), of "(reconcile (finalPrompt E (Suc loopCounter)) u f input, loopAgent)"]
        step(4) show ?thesis by simp
    next
      case False
      with Suc.prems have lt: "Suc loopCounter < k" by simp
      from Suc.hyps(2) have "n = MAX_AGENT_LOOP - Suc loopCounter" by simp
      from Suc.hyps(1) [OF this lt, of loopAgent' input'] Suc.prems(2) step(5) show ?thesis by simp
    qed
  qed
qed

text \<open>
  Claim C6: let the \<open>k\<close>-th response of the completion service hold a function call
  whose arguments \<^verbatim>\<open>JSON.parse\<close> rejects. Handling that item throws the parse error
  and pushes no entry; and if the loop gets as far as its \<open>k\<close>-th call of the service,
  \<^verbatim>\<open>run\<close> ends with an exception and returns no history.
\<close>

theorem malformed_arguments_propagate:
  assumes "responses_create E k = Inr response"
    and "OutFunctionCall call_id name arguments \<in> set response"
    and "json_parse E arguments = Inl e"
    and "0 < k" and "k \<le> fst (run E userInput input fileId)"
  shows "handle_output E (OutFunctionCall call_id name arguments) st = Inl e \<and>
         (\<exists>e'. snd (run E userInput input fileId) = Inl e')"
  using assms agent_loop_malformed [OF assms(1,2,3), of 0 userInput fileId True input]
  by (simp add: run_def)


theorem malformed_arguments_propagate_witness:
  "handle_output (sample_env (only_call ''get_portfolio_info'' ''{''))
      (OutFunctionCall ''call_1'' ''get_portfolio_info'' ''{'') ([], True) =
     Inl (SyntaxError ''Unexpected end of JSON input'') \<and>
   run (sample_env (only_call ''get_portfolio_info'' ''{'')) ''hi'' [] None =
     (1, Inl (SyntaxError ''Unexpected end of JSON input''))"
proof -
  let ?E = "sample_env (only_call ''get_portfolio_info'' ''{'')"
  have a: "responses_create ?E 1 = Inr [OutFunctionCall ''call_1'' ''get_portfolio_info'' ''{'']"
    by (simp add: sample_defs)
  have b: "OutFunctionCall ''call_1'' ''get_portfolio_info'' ''{''
      \<in> set [OutFunctionCall ''call_1'' ''get_portfolio_info'' ''{'']"
    by simp
  have c: "json_parse ?E ''{'' = Inl (SyntaxError ''Unexpected end of JSON input'')"
    by (simp add: sample_defs)
  have d: "(0::nat) < 1" by simp
  have r: "run ?E ''hi'' [] None = (1, Inl (SyntaxError ''Unexpected end of JSON input''))"
    by code_simp
  have e: "1 \<le> fst (run ?E ''hi'' [] None)"
    by (simp add: r)
  from malformed_arguments_propagate [OF a b c d e, of "([], True)"] r
  show ?thesis by simp
qed

lemma tool_switch_cancel:
  "get_prop args ''eventId'' = Inr eventId \<Longrightarrow> get_prop args ''sendUpdates'' = Inr sendUpdates \<Longrightarrow>
   tool_switch E ''cancel_meeting'' args = Inr (cancelMeeting E eventId sendUpdates)"
  by (simp add: tool_switch_def)

lemma tool_switch_schedule:
  "props args [''title'', ''description'', ''startDateTime'', ''endDateTime'',
               ''attendeeEmails'', ''location''] = Inr params \<Longrightarrow>
   tool_switch E ''schedule_meeting'' args = Inr (scheduleMeeting E params)"
  by (simp add: tool_switch_def)

lemma tool_switch_upcoming:
  "props args [''maxResults'', ''timeMin'', ''timeMax''] = Inr params \<Longrightarrow>
   tool_switch E ''get_upcoming_events'' args = Inr (getUpcomingEvents E params)"
  by (simp add: tool_switch_def)

lemma tool_switch_slots:
  "props args [''date'', ''duration'', ''workingHoursStart'', ''workingHoursEnd''] = Inr params \<Longrightarrow>
   tool_switch E ''find_available_slots'' args = Inr (findAvailableSlots E params)"
  by (simp add: tool_switch_def)

lemma handle_output_tool:
  "json_parse E arguments = Inr args \<Longrightarrow> tool_switch E name args = Inr toolResult \<Longrightarrow>
   handle_output E (OutFunctionCall call_id name arguments) (input, loopAgent) =
     Inr (input @ [FunctionCallOutput call_id toolResult], loopAgent)"
  by (simp add: dispatch_def)

text \<open>
  Claim C7, for each of the four operations of the provider: when the call of the
  calendar client throws \<open>e\<close>, the operation returns the text that starts with the
  cross mark and ends with the message of \<open>e\<close>; handling the function call does not
  throw, pushes that text as the \<^verbatim>\<open>function_call_output\<close> of the call, and leaves
  \<^verbatim>\<open>loopAgent\<close> as it was, so the next iteration follows. In the cancellation
  example that comes after the theorem, a second call of the completion service is made.
\<close>

theorem calendar_failure_is_tool_result:
  "(json_parse E arguments = Inr args \<longrightarrow>
      get_prop args ''eventId'' = Inr eventId \<longrightarrow>
      get_prop args ''sendUpdates'' = Inr sendUpdates \<longrightarrow>
      events_delete E ''primary'' eventId (send_updates sendUpdates) = Inl e \<longrightarrow>
        cancelMeeting E eventId sendUpdates =
          cross_mark @ '' Error cancelling meeting: '' @ error_message e \<and>
        handle_output E (OutFunctionCall call_id ''cancel_meeting'' arguments) (input, loopAgent) =
          Inr (input @ [FunctionCallOutput call_id
                 (cross_mark @ '' Error cancelling meeting: '' @ error_message e)], loopAgent)) \<and>
   (json_parse E arguments = Inr args \<longrightarrow>
      props args [''title'', ''description'', ''startDateTime'', ''endDateTime'',
                  ''attendeeEmails'', ''location''] = Inr params \<longrightarrow>
      schedule_request E params = Inr request \<longrightarrow>
      events_insert E request = Inl e \<longrightarrow>
        scheduleMeeting E params =
          cross_mark @ '' Error scheduling meeting: '' @ error_message e \<and>
        handle_output E (OutFunctionCall call_id ''schedule_meeting'' arguments) (input, loopAgent) =
          Inr (input @ [FunctionCallOutput call_id
                 (cross_mark @ '' Error scheduling meeting: '' @ error_message e)], loopAgent)) \<and>
   (json_parse E arguments = Inr args \<longrightarrow>
      props args [''maxResults'', ''timeMin'', ''timeMax''] = Inr params \<longrightarrow>
      upcoming_request E params = Inr request \<longrightarrow>
      events_list E request = Inl e \<longrightarrow>
        getUpcomingEvents E params =
          cross_mark @ '' Error getting events: '' @ error_message e \<and>
        handle_output E (OutFunctionCall call_id ''get_upcoming_events'' arguments) (input, loopAgent) =
          Inr (input @ [FunctionCallOutput call_id
                 (cross_mark @ '' Error getting events: '' @ error_message e)], loopAgent)) \<and>
   (json_parse E arguments = Inr args \<longrightarrow>
      props args [''date'', ''duration'', ''workingHoursStart'', ''workingHoursEnd''] = Inr params \<longrightarrow>
      slots_request E params = Inr request \<longrightarrow>
      events_list E request = Inl e \<longrightarrow>
        findAvailableSlots E params =
          cross_mark @ '' Error finding available slots: '' @ error_message e \<and>
        handle_output E (OutFunctionCall call_id ''find_available_slots'' arguments) (input, loopAgent) =
          Inr (input @ [FunctionCallOutput call_id
                 (cross_mark @ '' Error finding available slots: '' @ error_message e)], loopAgent))"
proof (intro conjI impI)
  assume "events_delete E ''primary'' eventId (send_updates sendUpdates) = Inl e"
  then show c: "cancelMeeting E eventId sendUpdates =
      cross_mark @ '' Error cancelling meeting: '' @ error_message e"
    by (simp add: cancelMeeting_def caught_def)
  assume "json_parse E arguments = Inr args" "get_prop args ''eventId'' = Inr eventId"
    "get_prop args ''sendUpdates'' = Inr sendUpdates"
  then show "handle_output E (OutFunctionCall call_id ''cancel_meeting'' arguments) (input, loopAgent) =
          Inr (input @ [FunctionCallOutput call_id
                 (cross_mark @ '' Error cancelling meeting: '' @ error_message e)], loopAgent)"
    using c handle_output_tool tool_switch_cancel by simp
next
  assume "schedule_request E params = Inr request" "events_insert E request = Inl e"
  then show c: "scheduleMeeting E params =
      cross_mark @ '' Error scheduling meeting: '' @ error_message e"
    by (simp add: scheduleMeeting_def caught_def)
  assume "json_parse E arguments = Inr args"
    "props args [''title'', ''description'', ''startDateTime'', ''endDateTime'',
                  ''attendeeEmails'', ''location''] = Inr params"
  then show "handle_output E (OutFunctionCall call_id ''schedule_meeting'' arguments) (input, loopAgent) =
          Inr (input @ [FunctionCallOutput call_id
                 (cross_mark @ '' Error scheduling meeting: '' @ error_message e)], loopAgent)"
    using c handle_output_tool tool_switch_schedule by simp
next
  assume "upcoming_request E params = Inr request" "events_list E request = Inl e"
  then show c: "getUpcomingEvents E params =
      cross_mark @ '' Error getting events: '' @ error_message e"
    by (simp add: getUpcomingEvents_def caught_def)
  assume "json_parse E arguments = Inr args"
    "props args [''maxResults'', ''timeMin'', ''timeMax''] = Inr params"
  then show "handle_output E (OutFunctionCall call_id ''get_upcoming_events'' arguments) (input, loopAgent) =
          Inr (input @ [FunctionCallOutput call_id
                 (cross_mark @ '' Error getting events: '' @ error_message e)], loopAgent)"
    using c handle_output_tool tool_switch_upcoming by simp
next
  assume "slots_request E params = Inr request" "events_list E request = Inl e"
  then show c: "findAvailableSlots E params =
      cross_mark @ '' Error finding available slots: '' @ error_message e"
    by (simp add: findAvailableSlots_def caught_def)
  assume "json_parse E arguments = Inr args"
    "props args [''date'', ''duration'', ''workingHoursStart'', ''workingHoursEnd''] = Inr params"
  then show "handle_output E (OutFunctionCall call_id ''find_available_slots'' arguments) (input, loopAgent) =
          Inr (input @ [FunctionCallOutput call_id
                 (cross_mark @ '' Error finding available slots: '' @ error_message e)], loopAgent)"
    using c handle_output_tool tool_switch_slots by simp
qed


theorem calendar_failure_is_tool_result_witness:
  "handle_output (sample_env (call_then_text ''cancel_meeting'' cancel_payload))
      (OutFunctionCall ''call_1'' ''cancel_meeting'' cancel_payload) ([], True) =
     Inr ([FunctionCallOutput ''call_1''
             (cross_mark @ '' Error cancelling meeting: network error'')], True) \<and>
   handle_output (sample_env (call_then_text ''cancel_meeting'' cancel_payload))
      (OutFunctionCall ''call_2'' ''schedule_meeting'' ''{}'') ([], True) =
     Inr ([FunctionCallOutput ''call_2''
             (cross_mark @ '' Error scheduling meeting: network error'')], True) \<and>
   handle_output (sample_env (call_then_text ''cancel_meeting'' cancel_payload))
      (OutFunctionCall ''call_3'' ''get_upcoming_events'' ''{}'') ([], True) =
     Inr ([FunctionCallOutput ''call_3''
             (cross_mark @ '' Error getting events: network error'')], True) \<and>
   handle_output (sample_env (call_then_text ''cancel_meeting'' cancel_payload))
      (OutFunctionCall ''call_4'' ''find_available_slots'' ''{}'') ([], True) =
     Inr ([FunctionCallOutput ''call_4''
             (cross_mark @ '' Error finding available slots: network error'')], True) \<and>
   run (sample_env (call_then_text ''cancel_meeting'' cancel_payload)) ''Cancel evt_1'' [] None =
     (2, Inr [Message ''system'' (Str ''Agora: $dateTime''),
              Message ''user'' (Str ''Cancel evt_1''),
              FunctionCall ''call_1'' ''cancel_meeting'' cancel_payload,
              FunctionCallOutput ''call_1''
                (cross_mark @ '' Error cancelling meeting: network error''),
              Message ''assistant'' (Str ''Done.'')])"
proof -
  let ?E = "sample_env (call_then_text ''cancel_meeting'' cancel_payload)"
  have cancel: "handle_output ?E
      (OutFunctionCall ''call_1'' ''cancel_meeting'' cancel_payload) ([], True) =
     Inr ([FunctionCallOutput ''call_1''
             (cross_mark @ '' Error cancelling meeting: network error'')], True)"
    using calendar_failure_is_tool_result [of ?E cancel_payload
        "JObj [(''eventId'', JStr ''evt_1'')]" "Some (JStr ''evt_1'')" None
        "Error ''network error''" "''call_1''" "[]" True "[]" JNull]
    by (simp add: sample_defs)
  have schedule: "handle_output ?E
      (OutFunctionCall ''call_2'' ''schedule_meeting'' ''{}'') ([], True) =
     Inr ([FunctionCallOutput ''call_2''
             (cross_mark @ '' Error scheduling meeting: network error'')], True)"
    using calendar_failure_is_tool_result [of ?E "''{}''" "JObj []" None None
        "Error ''network error''" "''call_2''" "[]" True
        "[None, None, None, None, None, None]" JNull]
    by (simp add: sample_defs)
  have upcoming: "handle_output ?E
      (OutFunctionCall ''call_3'' ''get_upcoming_events'' ''{}'') ([], True) =
     Inr ([FunctionCallOutput ''call_3''
             (cross_mark @ '' Error getting events: network error'')], True)"
    using calendar_failure_is_tool_result [of ?E "''{}''" "JObj []" None None
        "Error ''network error''" "''call_3''" "[]" True "[None, None, None]" JNull]
    by (simp add: sample_defs)
  have slots: "handle_output ?E
      (OutFunctionCall ''call_4'' ''find_available_slots'' ''{}'') ([], True) =
     Inr ([FunctionCallOutput ''call_4''
             (cross_mark @ '' Error finding available slots: network error'')], True)"
    using calendar_failure_is_tool_result [of ?E "''{}''" "JObj []" None None
        "Error ''network error''" "''call_4''" "[]" True "[None, None, None, None]" JNull]
    by (simp add: sample_defs)
  have loop: "run ?E ''Cancel evt_1'' [] None =
     (2, Inr [Message ''system'' (Str ''Agora: $dateTime''),
              Message ''user'' (Str ''Cancel evt_1''),
              FunctionCall ''call_1'' ''cancel_meeting'' cancel_payload,
              FunctionCallOutput ''call_1''
                (cross_mark @ '' Error cancelling meeting: network error''),
              Message ''assistant'' (Str ''Done.'')])"
    by code_simp
  from cancel schedule upcoming slots loop show ?thesis by (intro conjI)
qed

section \<open>What the reconciliation and the handling of a response keep\<close>

lemma findLastIndex_Some:
  "findLastIndex P xs = Some i \<Longrightarrow> i < length xs \<and> P (xs ! i)"
  by (induction xs arbitrary: i) (auto split: option.splits if_splits)

lemma filter_update_neither:
  "i < length xs \<Longrightarrow> \<not> P (xs ! i) \<Longrightarrow> \<not> P y \<Longrightarrow> filter P (xs[i := y]) = filter P xs"
proof (induction xs arbitrary: i)
  case Nil
  then show ?case by simp
next
  case (Cons x xs)
  then show ?case by (cases i) auto
qed

text \<open>The three ways the reconciliation can go.\<close>

lemma reconcile_cases:
  obtains
    (new) "h = []"
      "reconcile p u f h =
         [Message ''system'' (Str p),
          userMessage (js_or f (extractFileIdFromContent u)) (cleanUserInput u) u]"
  | (push) xs where "h \<noteq> []"
      "xs = Message ''system'' (Str p) # filter (\<lambda>msg. \<not> is_system msg) h"
      "findLastIndex is_user xs = None"
      "reconcile p u f h = xs @ [userMessage f u u]"
  | (rewrite) xs i where "h \<noteq> []"
      "xs = Message ''system'' (Str p) # filter (\<lambda>msg. \<not> is_system msg) h"
      "findLastIndex is_user xs = Some i"
      "reconcile p u f h = xs[i := rewrite_message u f (xs ! i)]"
proof (cases "h = []")
  case True
  then show ?thesis using new by (simp add: reconcile_def)
next
  case False
  define xs where "xs = Message ''system'' (Str p) # filter (\<lambda>msg. \<not> is_system msg) h"
  show ?thesis
  proof (cases "findLastIndex is_user xs")
    case None
    with False have "reconcile p u f h = xs @ [userMessage f u u]"
      by (simp add: reconcile_def Let_def xs_def)
    with False None xs_def show ?thesis using push by blast
  next
    case (Some i)
    with False have "reconcile p u f h = xs[i := rewrite_message u f (xs ! i)]"
      by (simp add: reconcile_def Let_def xs_def)
    with False Some xs_def show ?thesis using rewrite by blast
  qed
qed

text \<open>The reconciliation keeps, in their order, the entries that are neither system nor user messages.\<close>

lemma filter_reconcile:
  assumes P: "\<And>m. P m \<Longrightarrow> \<not> is_system m \<and> \<not> is_user m"
  shows "filter P (reconcile p u f h) = filter P h"
proof -
  have sys: "\<not> P (Message ''system'' (Str p))"
    using P [of "Message ''system'' (Str p)"] by (auto simp: is_system_def)
  have usr: "\<not> P (userMessage fid t u)" for fid t
    using P [of "userMessage fid t u"] by (auto simp: is_user_def)
  have ff: "filter P (filter (\<lambda>msg. \<not> is_system msg) h) = filter P h"
    using P by (auto intro: filter_cong)
  have base: "filter P xs = filter P h"
    if "xs = Message ''system'' (Str p) # filter (\<lambda>msg. \<not> is_system msg) h" for xs
    unfolding that using sys ff by simp
  show ?thesis
  proof (cases rule: reconcile_cases [of h p u f])
    case new
    with sys usr show ?thesis by simp
  next
    case (push xs)
    from base [OF push(2)] usr push(4) show ?thesis by simp
  next
    case (rewrite xs i)
    from findLastIndex_Some [OF rewrite(3)] have i: "i < length xs" and u: "is_user (xs ! i)"
      by blast+
    from u have 1: "\<not> P (xs ! i)" using P by blast
    from u have "is_user (rewrite_message u f (xs ! i))"
      by (simp add: is_user_def)
    then have 2: "\<not> P (rewrite_message u f (xs ! i))" using P by blast
    from filter_update_neither [OF i 1 2] base [OF rewrite(2)] rewrite(4) show ?thesis by simp
  qed
qed

lemma assistant_reconcile:
  "filter is_assistant (reconcile p u f h) = filter is_assistant h"
  by (rule filter_reconcile) (auto simp: is_assistant_def is_system_def is_user_def)

lemma tool_tags_append [simp]: "tool_tags (xs @ ys) = tool_tags xs @ tool_tags ys"
  by (induction xs rule: tool_tags.induct) simp_all

lemma tool_tags_filter: "tool_tags (filter (\<lambda>m. role_of m = None) xs) = tool_tags xs"
  by (induction xs rule: tool_tags.induct) simp_all

lemma tool_tags_reconcile: "tool_tags (reconcile p u f h) = tool_tags h"
proof -
  have "filter (\<lambda>m. role_of m = None) (reconcile p u f h) = filter (\<lambda>m. role_of m = None) h"
    by (rule filter_reconcile) (auto simp: is_system_def is_user_def)
  then show ?thesis by (metis tool_tags_filter)
qed

lemma call_entries_reconcile:
  "filter is_call_entry (reconcile p u f h) = filter is_call_entry h"
proof (rule filter_reconcile)
  fix m assume "is_call_entry m"
  then show "\<not> is_system m \<and> \<not> is_user m"
    by (cases m) (auto simp: is_system_def is_user_def)
qed

lemma fold_handle_part_tags:
  "tool_tags (fst (fold handle_part parts st)) = tool_tags (fst st) \<and>
   filter is_call_entry (fst (fold handle_part parts st)) = filter is_call_entry (fst st)"
proof (induction parts arbitrary: st)
  case Nil
  then show ?case by simp
next
  case (Cons part parts)
  obtain input loopAgent where st: "st = (input, loopAgent)" by (cases st)
  show ?case using Cons.IH [of "handle_part part st"] st
    by (cases part) simp_all
qed

lemma handle_output_tags:
  assumes "handle_output E out st = Inr st'"
  shows "tool_tags (fst st') = tool_tags (fst st) @ map Result (call_ids [out]) \<and>
         filter is_call_entry (fst st') = filter is_call_entry (fst st)"
proof (cases out)
  case (OutMessage parts)
  with assms fold_handle_part_tags [of parts st] show ?thesis by auto
next
  case Reasoning
  with assms show ?thesis by auto
next
  case (OutFunctionCall call_id name arguments)
  with assms show ?thesis
    by (auto simp: dispatch_def split: sum.splits)
next
  case (OtherOutput ty)
  with assms show ?thesis by (cases st) auto
qed

lemma call_ids_Cons: "call_ids (out # outs) = call_ids [out] @ call_ids outs"
  by (cases out) simp_all

lemma handle_outputs_tags:
  "handle_outputs E outs st = Inr st' \<Longrightarrow>
   tool_tags (fst st') = tool_tags (fst st) @ map Result (call_ids outs) \<and>
   filter is_call_entry (fst st') = filter is_call_entry (fst st)"
proof (induction outs arbitrary: st)
  case Nil
  then show ?case by simp
next
  case (Cons out outs)
  from Cons.prems obtain st1 where 1: "handle_output E out st = Inr st1"
    and 2: "handle_outputs E outs st1 = Inr st'"
    by (auto split: sum.splits)
  from handle_output_tags [OF 1] Cons.IH [OF 2] show ?case
    by (simp add: call_ids_Cons [of out outs])
qed

lemma tool_tags_function_calls: "tool_tags (function_calls outs) = map Call (call_ids outs)"
  by (induction outs rule: function_calls.induct) simp_all

lemma call_entries_function_calls:
  "filter is_call_entry (function_calls outs) = function_calls outs"
  by (induction outs rule: function_calls.induct) simp_all

lemma process_response_tags:
  assumes "process_response E response st = Inr st'"
  shows "tool_tags (fst st') =
           tool_tags (fst st) @ map Call (call_ids response) @ map Result (call_ids response) \<and>
         filter is_call_entry (fst st') = filter is_call_entry (fst st) @ function_calls response"
  using handle_outputs_tags [OF assms [unfolded process_response_def]]
  by (simp add: tool_tags_function_calls call_entries_function_calls)


section \<open>Bound and order of the loop\<close>

lemma agent_loop_tags:
  "agent_loop E u f loopAgent loopCounter input = (n, Inr h') \<Longrightarrow>
   loopCounter \<le> n \<and>
   tool_tags h' =
     tool_tags input @
     concat (map (\<lambda>k. map Call (call_ids (response_of E k)) @
                       map Result (call_ids (response_of E k))) [Suc loopCounter..<Suc n]) \<and>
   filter is_call_entry h' =
     filter is_call_entry input @
     concat (map (\<lambda>k. function_calls (response_of E k)) [Suc loopCounter..<Suc n])"
proof (induction "MAX_AGENT_LOOP - loopCounter" arbitrary: loopCounter loopAgent input)
  case 0
  then show ?case by (simp add: agent_loop_stop)
next
  case (Suc m)
  show ?case
  proof (cases rule: agent_loop_cases [of loopAgent loopCounter E u f input])
    case stop
    with Suc.prems show ?thesis by simp
  next
    case (service_error e)
    with Suc.prems show ?thesis by simp
  next
    case (process_error response e)
    with Suc.prems show ?thesis by simp
  next
    case (step response input' loopAgent')
    from Suc.hyps(2) have m: "m = MAX_AGENT_LOOP - Suc loopCounter" by simp
    from step(5) Suc.prems
    have "agent_loop E u f loopAgent' (Suc loopCounter) input' = (n, Inr h')" by simp
    from Suc.hyps(1) [OF m this]
    have le: "Suc loopCounter \<le> n"
      and tags: "tool_tags h' = tool_tags input' @
        concat (map (\<lambda>k. map Call (call_ids (response_of E k)) @
                          map Result (call_ids (response_of E k))) [Suc (Suc loopCounter)..<Suc n])"
      and calls: "filter is_call_entry h' = filter is_call_entry input' @
        concat (map (\<lambda>k. function_calls (response_of E k)) [Suc (Suc loopCounter)..<Suc n])"
      by blast+
    from step(3) have r: "response_of E (Suc loopCounter) = response"
      by (simp add: response_of_def)
    from process_response_tags [OF step(4)]
    have t1: "tool_tags input' =
        tool_tags input @ map Call (call_ids response) @ map Result (call_ids response)"
      and c1: "filter is_call_entry input' = filter is_call_entry input @ function_calls response"
      by (simp_all add: tool_tags_reconcile call_entries_reconcile)
    from le have upt: "[Suc loopCounter..<Suc n] = Suc loopCounter # [Suc (Suc loopCounter)..<Suc n]"
      by (simp add: upt_conv_Cons)
    from le tags calls t1 c1 r show ?thesis
      by (simp add: upt del: upt_Suc)
  qed
qed

lemma handle_outputs_only_tools:
  "list_all (runs_tool E) outs \<Longrightarrow>
   \<exists>h'. handle_outputs E outs (h, loopAgent) = Inr (h', loopAgent) \<and>
        filter is_assistant h' = filter is_assistant h"
proof (induction outs arbitrary: h)
  case Nil
  then show ?case by simp
next
  case (Cons out outs)
  from Cons.prems have 1: "runs_tool E out" and 2: "list_all (runs_tool E) outs" by simp_all
  from 1 obtain call_id name arguments where out: "out = OutFunctionCall call_id name arguments"
    by (cases out) simp_all
  from 1 out obtain args r where "json_parse E arguments = Inr args" "tool_switch E name args = Inr r"
    by (auto split: sum.splits)
  then have "handle_output E out (h, loopAgent) = Inr (h @ [FunctionCallOutput call_id r], loopAgent)"
    by (simp add: out dispatch_def)
  with Cons.IH [OF 2, of "h @ [FunctionCallOutput call_id r]"] show ?case
    by (auto simp: is_assistant_def)
qed

lemma assistant_function_calls: "filter is_assistant (function_calls outs) = []"
  by (induction outs rule: function_calls.induct) (simp_all add: is_assistant_def)

lemma process_response_only_tools:
  "list_all (runs_tool E) response \<Longrightarrow>
   \<exists>h'. process_response E response (h, loopAgent) = Inr (h', loopAgent) \<and>
        filter is_assistant h' = filter is_assistant h"
  using handle_outputs_only_tools [of E response "h @ function_calls response" loopAgent]
  by (simp add: process_response_def assistant_function_calls)

lemma agent_loop_only_tools:
  "(\<forall>k. loopCounter < k \<and> k \<le> MAX_AGENT_LOOP \<longrightarrow>
      (\<exists>response. responses_create E k = Inr response \<and> list_all (runs_tool E) response)) \<Longrightarrow>
   loopCounter \<le> MAX_AGENT_LOOP \<Longrightarrow>
   \<exists>h'. agent_loop E u f True loopCounter input = (MAX_AGENT_LOOP, Inr h') \<and>
        filter is_assistant h' = filter is_assistant input"
proof (induction "MAX_AGENT_LOOP - loopCounter" arbitrary: loopCounter input)
  case 0
  then show ?case by (simp add: agent_loop_stop)
next
  case (Suc m)
  from Suc.hyps(2) have lt: "loopCounter < MAX_AGENT_LOOP" and m: "m = MAX_AGENT_LOOP - Suc loopCounter"
    by simp_all
  from Suc.prems(1) lt obtain response where r: "responses_create E (Suc loopCounter) = Inr response"
    and ok: "list_all (runs_tool E) response"
    by (metis Suc_leI lessI)
  from process_response_only_tools [OF ok, of "reconcile (finalPrompt E (Suc loopCounter)) u f input" True]
  obtain h1 where p: "process_response E response
        (reconcile (finalPrompt E (Suc loopCounter)) u f input, True) = Inr (h1, True)"
    and a1: "filter is_assistant h1 = filter is_assistant input"
    by (auto simp: assistant_reconcile)
  have step: "agent_loop E u f True loopCounter input = agent_loop E u f True (Suc loopCounter) h1"
    using agent_loop_step [OF _ lt r p] by simp
  from Suc.prems(1) have "\<forall>k. Suc loopCounter < k \<and> k \<le> MAX_AGENT_LOOP \<longrightarrow>
      (\<exists>response. responses_create E k = Inr response \<and> list_all (runs_tool E) response)"
    by (simp add: Suc_lessD)
  from Suc.hyps(1) [OF m this, of h1] lt a1 step show ?case by simp
qed

text \<open>
  Claim C3, as amended. \<^verbatim>\<open>run\<close> never calls the completion service more than
  three times, exception or not. If each of the three responses holds only function
  calls that are handled without an exception (the arguments parse, and they are not
  \<^verbatim>\<open>null\<close> for a registered tool), the loop ends after exactly three calls and
  returns a history with the assistant messages of the initial history and no other.
  As stated, for function calls of any kind, the claim fails: a call whose arguments do
  not parse ends the run with an exception in the iteration that receives it.
\<close>

theorem run_bounded:
  "fst (run E userInput input fileId) \<le> 3 \<and>
   ((\<forall>k. 1 \<le> k \<and> k \<le> 3 \<longrightarrow>
       (\<exists>response. responses_create E k = Inr response \<and> list_all (runs_tool E) response)) \<longrightarrow>
    (\<exists>h'. run E userInput input fileId = (3, Inr h') \<and>
          filter is_assistant h' = filter is_assistant input))"
proof (intro conjI impI)
  show "fst (run E userInput input fileId) \<le> 3"
    using agent_loop_counter_le [of E userInput fileId True 0 input]
    by (simp add: run_def MAX_AGENT_LOOP_def)
next
  assume "\<forall>k. 1 \<le> k \<and> k \<le> 3 \<longrightarrow>
       (\<exists>response. responses_create E k = Inr response \<and> list_all (runs_tool E) response)"
  then have "\<forall>k. 0 < k \<and> k \<le> MAX_AGENT_LOOP \<longrightarrow>
       (\<exists>response. responses_create E k = Inr response \<and> list_all (runs_tool E) response)"
    by (simp add: MAX_AGENT_LOOP_def Suc_le_eq)
  from agent_loop_only_tools [OF this, of userInput fileId input]
  show "\<exists>h'. run E userInput input fileId = (3, Inr h') \<and>
          filter is_assistant h' = filter is_assistant input"
    by (simp add: run_def MAX_AGENT_LOOP_def)
qed

text \<open>
  Claim C4: when \<^verbatim>\<open>run\<close> returns after \<open>n\<close> calls of the completion service, the
  function-call entries of the returned history are those of the initial history
  followed by the function calls of the responses 1 to \<open>n\<close>, each as it was emitted
  and in the order of emission; and, reading only the entries that are not messages,
  every response contributes the invocations of its calls, in the order of emission,
  followed by the results of the same calls in the same order. So every invocation
  stands before the result of its call, which the loop pushes after running the tool.
\<close>

theorem function_calls_in_order:
  assumes "run E userInput input fileId = (n, Inr h')"
  shows "filter is_call_entry h' =
           filter is_call_entry input @
           concat (map (\<lambda>k. function_calls (response_of E k)) [1..<Suc n]) \<and>
         tool_tags h' =
           tool_tags input @
           concat (map (\<lambda>k. map Call (call_ids (response_of E k)) @
                             map Result (call_ids (response_of E k))) [1..<Suc n])"
  using agent_loop_tags [OF assms [unfolded run_def]] by simp


theorem run_bounded_witness:
  "fst (run (sample_env (only_call ''get_portfolio_info'' ''{}'')) ''hi'' [] None) \<le> 3 \<and>
   run (sample_env (only_call ''get_portfolio_info'' ''{}'')) ''hi'' [] None =
     (3, Inr [Message ''system'' (Str ''Agora: $dateTime''),
              Message ''user'' (Str ''hi''),
              FunctionCall ''call_1'' ''get_portfolio_info'' ''{}'',
              FunctionCallOutput ''call_1'' ''Portfolio: undefined'',
              FunctionCall ''call_1'' ''get_portfolio_info'' ''{}'',
              FunctionCallOutput ''call_1'' ''Portfolio: undefined'',
              FunctionCall ''call_1'' ''get_portfolio_info'' ''{}'',
              FunctionCallOutput ''call_1'' ''Portfolio: undefined''])"
proof -
  let ?E = "sample_env (only_call ''get_portfolio_info'' ''{}'')"
  have ok: "\<forall>k. 1 \<le> k \<and> k \<le> 3 \<longrightarrow>
       (\<exists>response. responses_create ?E k = Inr response \<and> list_all (runs_tool ?E) response)"
    by (simp add: sample_defs tool_switch_def)
  have r: "run ?E ''hi'' [] None =
     (3, Inr [Message ''system'' (Str ''Agora: $dateTime''),
              Message ''user'' (Str ''hi''),
              FunctionCall ''call_1'' ''get_portfolio_info'' ''{}'',
              FunctionCallOutput ''call_1'' ''Portfolio: undefined'',
              FunctionCall ''call_1'' ''get_portfolio_info'' ''{}'',
              FunctionCallOutput ''call_1'' ''Portfolio: undefined'',
              FunctionCall ''call_1'' ''get_portfolio_info'' ''{}'',
              FunctionCallOutput ''call_1'' ''Portfolio: undefined''])"
    by code_simp
  from run_bounded [of ?E "''hi''" "[]" None] ok r show ?thesis by simp
qed

text \<open>
  The counterexample to C3 as stated: every response is one function call, and the run
  makes one call of the completion service, not three.
\<close>

theorem run_stops_at_malformed_call:
  "responses_create (sample_env (only_call ''get_portfolio_info'' ''{'')) 1 =
     Inr [OutFunctionCall ''call_1'' ''get_portfolio_info'' ''{''] \<and>
   responses_create (sample_env (only_call ''get_portfolio_info'' ''{'')) 2 =
     Inr [OutFunctionCall ''call_1'' ''get_portfolio_info'' ''{''] \<and>
   responses_create (sample_env (only_call ''get_portfolio_info'' ''{'')) 3 =
     Inr [OutFunctionCall ''call_1'' ''get_portfolio_info'' ''{''] \<and>
   list_all is_function_call [OutFunctionCall ''call_1'' ''get_portfolio_info'' ''{''] \<and>
   fst (run (sample_env (only_call ''get_portfolio_info'' ''{'')) ''hi'' [] None) = 1 \<and>
   snd (run (sample_env (only_call ''get_portfolio_info'' ''{'')) ''hi'' [] None) =
     Inl (SyntaxError ''Unexpected end of JSON input'')"
  by code_simp

theorem function_calls_in_order_witness:
  "run (sample_env two_calls_then_text) ''hi'' [] None =
     (2, Inr [Message ''system'' (Str ''Agora: $dateTime''),
              Message ''user'' (Str ''hi''),
              FunctionCall ''call_a'' ''get_portfolio_info'' ''{}'',
              FunctionCall ''call_b'' ''get_weather'' ''null'',
              FunctionCallOutput ''call_a'' ''Portfolio: undefined'',
              FunctionCallOutput ''call_b'' ''ERROR: tool get_weather not implemented.'',
              Message ''assistant'' (Str ''Done.'')]) \<and>
   filter is_call_entry
     [Message ''system'' (Str ''Agora: $dateTime''),
      Message ''user'' (Str ''hi''),
      FunctionCall ''call_a'' ''get_portfolio_info'' ''{}'',
      FunctionCall ''call_b'' ''get_weather'' ''null'',
      FunctionCallOutput ''call_a'' ''Portfolio: undefined'',
      FunctionCallOutput ''call_b'' ''ERROR: tool get_weather not implemented.'',
      Message ''assistant'' (Str ''Done.'')] =
     [FunctionCall ''call_a'' ''get_portfolio_info'' ''{}'',
      FunctionCall ''call_b'' ''get_weather'' ''null''] \<and>
   tool_tags
     [Message ''system'' (Str ''Agora: $dateTime''),
      Message ''user'' (Str ''hi''),
      FunctionCall ''call_a'' ''get_portfolio_info'' ''{}'',
      FunctionCall ''call_b'' ''get_weather'' ''null'',
      FunctionCallOutput ''call_a'' ''Portfolio: undefined'',
      FunctionCallOutput ''call_b'' ''ERROR: tool get_weather not implemented.'',
      Message ''assistant'' (Str ''Done.'')] =
     [Call ''call_a'', Call ''call_b'', Result ''call_a'', Result ''call_b'']"
proof -
  let ?E = "sample_env two_calls_then_text"
  let ?H = "[Message ''system'' (Str ''Agora: $dateTime''),
      Message ''user'' (Str ''hi''),
      FunctionCall ''call_a'' ''get_portfolio_info'' ''{}'',
      FunctionCall ''call_b'' ''get_weather'' ''null'',
      FunctionCallOutput ''call_a'' ''Portfolio: undefined'',
      FunctionCallOutput ''call_b'' ''ERROR: tool get_weather not implemented.'',
      Message ''assistant'' (Str ''Done.'')]"
  have r: "run ?E ''hi'' [] None = (2, Inr ?H)"
    by code_simp
  have two: "[1..<Suc 2] = [1, 2]"
    by (simp add: upt_conv_Cons)
  from function_calls_in_order [OF r] r show ?thesis
    by (simp add: two response_of_def sample_defs)
qed

section \<open>The user turn\<close>

lemma findIndex_Some:
  "findIndex P xs = Some i \<Longrightarrow> i < length xs \<and> P (xs ! i)"
  by (induction xs arbitrary: i) (auto split: if_splits)

lemma findLastIndex_None: "filter P xs = [] \<Longrightarrow> findLastIndex P xs = None"
  by (induction xs) (auto split: if_splits)

lemma findLastIndex_last:
  "P y \<Longrightarrow> filter P ys = [] \<Longrightarrow> findLastIndex P (xs @ y # ys) = Some (length xs)"
  by (induction xs) (simp_all add: findLastIndex_None)

lemma update_text_parts:
  "update_text (Parts ps) u =
     Parts (case findIndex is_input_text ps of
              Some i \<Rightarrow> ps[i := InputText u]
            | None \<Rightarrow> ps @ [InputText u])"
  by (simp add: update_text_def split: option.split)

lemma update_text_keeps_other_parts:
  "filter (\<lambda>q. \<not> is_input_text q)
     (case findIndex is_input_text ps of
        Some i \<Rightarrow> ps[i := InputText u]
      | None \<Rightarrow> ps @ [InputText u]) =
   filter (\<lambda>q. \<not> is_input_text q) ps"
proof (cases "findIndex is_input_text ps")
  case None
  then show ?thesis by simp
next
  case (Some i)
  from findIndex_Some [OF Some] have "i < length ps" "is_input_text (ps ! i)" by blast+
  then have "filter (\<lambda>q. \<not> is_input_text q) (ps[i := InputText u]) =
      filter (\<lambda>q. \<not> is_input_text q) ps"
    by (intro filter_update_neither) simp_all
  with Some show ?thesis by simp
qed

lemma rewrite_content_no_file:
  "truthy_id fileId = None \<Longrightarrow> extractFileIdFromContent u = None \<Longrightarrow>
   rewrite_content u fileId c = update_text c u"
  by (simp add: rewrite_content_def js_or_def truthy_id_def)

text \<open>
  Claim C10: let the last user message of a history have an array of parts with a file
  part, and let the new turn come with no file id and no marker in its text. Then the
  reconciliation changes that message and nothing else behind the system message: the
  first text part gets the new text (a text part is added at the end when there is
  none), every other part stays where it was, and the file part is still there.
\<close>

theorem file_part_stays_attached:
  assumes h: "h = pre @ Message ''user'' (Parts ps) # post"
    and last: "filter is_user post = []"
    and has_file: "InputFile fid \<in> set ps"
    and no_ref: "truthy_id fileId = None"
    and no_marker: "extractFileIdFromContent u = None"
  shows "\<exists>ps'. reconcile p u fileId h =
           Message ''system'' (Str p) # filter (\<lambda>msg. \<not> is_system msg) pre @
           Message ''user'' (Parts ps') # filter (\<lambda>msg. \<not> is_system msg) post \<and>
         ps' = (case findIndex is_input_text ps of
                  Some i \<Rightarrow> ps[i := InputText u]
                | None \<Rightarrow> ps @ [InputText u]) \<and>
         filter (\<lambda>q. \<not> is_input_text q) ps' = filter (\<lambda>q. \<not> is_input_text q) ps \<and>
         InputFile fid \<in> set ps'"
proof -
  define A where "A = Message ''system'' (Str p) # filter (\<lambda>msg. \<not> is_system msg) pre"
  define B where "B = filter (\<lambda>msg. \<not> is_system msg) post"
  define m where "m = Message ''user'' (Parts ps)"
  define ps' where "ps' = (case findIndex is_input_text ps of
                  Some i \<Rightarrow> ps[i := InputText u]
                | None \<Rightarrow> ps @ [InputText u])"
  have usr: "is_user m" and nonsys: "\<not> is_system m"
    by (simp_all add: m_def is_user_def is_system_def)
  have xs: "Message ''system'' (Str p) # filter (\<lambda>msg. \<not> is_system msg) h = A @ m # B"
    using nonsys by (simp add: h A_def B_def m_def)
  from last have "filter is_user B = []"
    by (simp add: B_def filter_empty_conv)
  with usr have idx: "findLastIndex is_user (A @ m # B) = Some (length A)"
    by (rule findLastIndex_last)
  have "h \<noteq> []" by (simp add: h)
  with idx have "reconcile p u fileId h = (A @ m # B)[length A := rewrite_message u fileId ((A @ m # B) ! length A)]"
    by (simp add: reconcile_def Let_def xs)
  also have "\<dots> = A @ rewrite_message u fileId m # B"
    by simp
  also have "rewrite_message u fileId m = Message ''user'' (Parts ps')"
    by (simp add: m_def rewrite_content_no_file [OF no_ref no_marker] update_text_parts ps'_def)
  finally have 1: "reconcile p u fileId h =
           Message ''system'' (Str p) # filter (\<lambda>msg. \<not> is_system msg) pre @
           Message ''user'' (Parts ps') # filter (\<lambda>msg. \<not> is_system msg) post"
    by (simp add: A_def B_def)
  have 2: "filter (\<lambda>q. \<not> is_input_text q) ps' = filter (\<lambda>q. \<not> is_input_text q) ps"
    unfolding ps'_def by (rule update_text_keeps_other_parts)
  from has_file have "InputFile fid \<in> set (filter (\<lambda>q. \<not> is_input_text q) ps)" by simp
  with 2 have "InputFile fid \<in> set (filter (\<lambda>q. \<not> is_input_text q) ps')" by simp
  then have 3: "InputFile fid \<in> set ps'" by simp
  from 1 2 3 ps'_def show ?thesis by blast
qed

theorem file_part_stays_attached_witness:
  "reconcile ''P'' ''and page 2?'' None
     [Message ''system'' (Str ''old''),
      Message ''user'' (Parts [InputFile ''doc-123'', InputText ''what is on page 1?'']),
      Message ''assistant'' (Str ''A table.'')] =
   [Message ''system'' (Str ''P''),
    Message ''user'' (Parts [InputFile ''doc-123'', InputText ''and page 2?'']),
    Message ''assistant'' (Str ''A table.'')]"
proof -
  have a: "[Message ''system'' (Str ''old''),
      Message ''user'' (Parts [InputFile ''doc-123'', InputText ''what is on page 1?'']),
      Message ''assistant'' (Str ''A table.'')] =
     [Message ''system'' (Str ''old'')] @
      Message ''user'' (Parts [InputFile ''doc-123'', InputText ''what is on page 1?'']) #
      [Message ''assistant'' (Str ''A table.'')]"
    by simp
  have b: "filter is_user [Message ''assistant'' (Str ''A table.'')] = []"
    by (simp add: is_user_def)
  have c: "InputFile ''doc-123'' \<in> set [InputFile ''doc-123'', InputText ''what is on page 1?'']"
    by simp
  have d: "truthy_id None = None"
    by (simp add: truthy_id_def)
  have e: "extractFileIdFromContent ''and page 2?'' = None"
    by code_simp
  from file_part_stays_attached [OF a b c d e, of "''P''"] show ?thesis
    by (simp add: is_system_def)
qed

lemma strip_prefix_Some: "strip_prefix q s = Some r \<Longrightarrow> s = q @ r"
  by (induction q s rule: strip_prefix.induct) (auto split: if_splits)

lemma match_marker_Some:
  assumes m: "match_marker s = Some (fid, after)"
  shows "s = marker_open @ fid @ '']'' @ after \<and> fid \<noteq> [] \<and> CHR '']'' \<notin> set fid"
proof -
  from m obtain body where b: "strip_prefix marker_open s = Some body"
    by (auto simp: match_marker_def split: option.splits)
  with m obtain x where fid: "fid = takeWhile (\<lambda>c. c \<noteq> CHR '']'') body" and ne: "fid \<noteq> []"
    and dw: "dropWhile (\<lambda>c. c \<noteq> CHR '']'') body = x # after"
    by (auto simp: match_marker_def Let_def split: if_splits list.splits)
  from dw have "x = CHR '']''"
    using hd_dropWhile [of "\<lambda>c. c \<noteq> CHR '']''" body] by simp
  with dw fid have "body = fid @ CHR '']'' # after"
    by (metis takeWhile_dropWhile_id)
  moreover from fid have "CHR '']'' \<notin> set fid"
    by (auto dest: set_takeWhileD)
  ultimately show ?thesis using strip_prefix_Some [OF b] ne by simp
qed

text \<open>
  What \<open>find_marker\<close> finds is a marker: the input is the text before it, the opening,
  an id without \<^verbatim>\<open>]\<close>, the closing bracket and the text after it.
\<close>

lemma find_marker_Some:
  "find_marker s = Some (before, fid, after) \<Longrightarrow>
   s = before @ marker_open @ fid @ '']'' @ after \<and> fid \<noteq> [] \<and> CHR '']'' \<notin> set fid"
proof (induction s arbitrary: before)
  case Nil
  then show ?case by simp
next
  case (Cons c cs)
  show ?case
  proof (cases "match_marker (c # cs)")
    case None
    with Cons.prems obtain b where "find_marker cs = Some (b, fid, after)" "before = c # b"
      by auto
    with Cons.IH [of b] show ?thesis by simp
  next
    case (Some r)
    with Cons.prems have "match_marker (c # cs) = Some (fid, after)" "before = []"
      by (auto split: prod.splits)
    with match_marker_Some [of "c # cs" fid after] show ?thesis by simp
  qed
qed

lemma findLastIndex_None_D: "findLastIndex P xs = None \<Longrightarrow> filter P xs = []"
  by (induction xs) (auto split: option.splits if_splits)

lemma user_in_reconcile: "filter is_user (reconcile p u f h) \<noteq> []"
proof (cases rule: reconcile_cases [of h p u f])
  case new
  then show ?thesis by (simp add: is_user_def)
next
  case (push xs)
  then show ?thesis by (simp add: is_user_def)
next
  case (rewrite xs i)
  from findLastIndex_Some [OF rewrite(3)] have i: "i < length xs" and "is_user (xs ! i)"
    by blast+
  then have y: "is_user (rewrite_message u f (xs ! i))" by (simp add: is_user_def)
  from i have "rewrite_message u f (xs ! i) \<in> set (xs[i := rewrite_message u f (xs ! i)])"
    by (rule set_update_memI)
  with y have "filter is_user (xs[i := rewrite_message u f (xs ! i)]) \<noteq> []"
    by (auto simp: filter_empty_conv)
  with rewrite(4) show ?thesis by simp
qed

text \<open>
  A second reconciliation leaves the roles of the history as the first made them: it
  adds no user message and removes none.
\<close>

lemma reconcile_twice_roles:
  "map role_of (reconcile p' u' f' (reconcile p u f h)) = map role_of (reconcile p u f h)"
proof -
  define h1 where "h1 = reconcile p u f h"
  obtain rs where rs: "map role_of h1 = Some ''system'' # rs" and no: "Some ''system'' \<notin> set rs"
    using roles_reconcile [of p u f h] by (auto simp: h1_def)
  from rs obtain m t where h1: "h1 = m # t" and m: "role_of m = Some ''system''"
    and t: "map role_of t = rs"
    by (cases h1) auto
  from no t have "\<And>x. x \<in> set t \<Longrightarrow> role_of x \<noteq> Some ''system''"
    by (metis imageI set_map)
  then have "filter (\<lambda>msg. \<not> is_system msg) t = t"
    by (simp add: filter_id_conv is_system_def)
  with m have nonsys: "filter (\<lambda>msg. \<not> is_system msg) h1 = t"
    by (simp add: h1 is_system_def)
  have usr: "filter is_user h1 \<noteq> []"
    unfolding h1_def by (rule user_in_reconcile)
  have "map role_of (reconcile p' u' f' h1) = map role_of h1"
  proof (cases rule: reconcile_cases [of h1 p' u' f'])
    case new
    with h1 show ?thesis by simp
  next
    case (push xs)
    from findLastIndex_None_D [OF push(3)] have "filter is_user t = []"
      by (simp add: push(2) nonsys is_user_def)
    with usr m show ?thesis by (simp add: h1 is_user_def)
  next
    case (rewrite xs i)
    from rewrite(4) have "map role_of (reconcile p' u' f' h1) = map role_of xs"
      by (simp only: roles_rewrite_at)
    also have "xs = Message ''system'' (Str p') # t"
      using rewrite(2) nonsys by simp
    also have "map role_of (Message ''system'' (Str p') # t) = map role_of h1"
      by (simp add: h1 m)
    finally show ?thesis .
  qed
  then show ?thesis by (simp add: h1_def)
qed

lemma is_user_fun: "is_user = (\<lambda>m. role_of m = Some ''user'')"
  by (rule ext) (simp add: is_user_def)

lemma reconcile_twice_user_count:
  "length (filter is_user (reconcile p' u' f' (reconcile p u f h))) =
   length (filter is_user (reconcile p u f h))"
proof -
  have c: "length (filter is_user xs) = length (filter (\<lambda>r. r = Some ''user'') (map role_of xs))"
    for xs
    by (simp add: comp_def is_user_fun)
  show ?thesis by (simp only: c reconcile_twice_roles)
qed

text \<open>
  Where the last user message is rewritten (lines 650 to 666), an explicit id comes
  before the id of the marker, and the text part is the input without its marker.
\<close>

lemma js_or_explicit: "x \<noteq> [] \<Longrightarrow> js_or (Some x) e = Some x"
  by (simp add: js_or_def truthy_id_def)

lemma rewrite_content_with_file:
  "truthy_id (js_or fileId (extractFileIdFromContent u)) = Some x \<Longrightarrow>
   rewrite_content u fileId c = Parts [InputFile x, InputText (cleanUserInput u)]"
  by (simp add: rewrite_content_def)

lemma cleanUserInput_marker:
  "find_marker u = Some (before, fid, after) \<Longrightarrow> cleanUserInput u = before @ skip_ws after"
  using find_marker_Some [of u before fid after]
  by (simp add: cleanUserInput_def extractFileIdFromContent_def truthy_id_def remove_marker_def)

text \<open>
  Claim C8 says that the marker is stripped from the stored text whenever the input has
  one. The branch for a history without a user message (lines 688 to 705) neither reads
  the marker nor removes it, while the other two branches do both. With the history of
  one assistant message and the input \<^verbatim>\<open>[File attached: f1] hello\<close>, the
  reconciled user turn is the input with its marker and has no file part; from the
  empty history the same input gives a file part and the text \<^verbatim>\<open>hello\<close>. The run
  that gets a text answer to its first call returns the history with the marker.
\<close>

theorem marker_kept_in_new_user_message:
  "reconcile ''P'' ''[File attached: f1] hello'' None [Message ''assistant'' (Str ''Hi!'')] =
     [Message ''system'' (Str ''P''), Message ''assistant'' (Str ''Hi!''),
      Message ''user'' (Str ''[File attached: f1] hello'')] \<and>
   reconcile ''P'' ''[File attached: f1] hello'' None [] =
     [Message ''system'' (Str ''P''),
      Message ''user'' (Parts [InputFile ''f1'', InputText ''hello''])] \<and>
   run (sample_env text_only) ''[File attached: f1] hello'' [Message ''assistant'' (Str ''Hi!'')] None =
     (1, Inr [Message ''system'' (Str ''Agora: $dateTime''), Message ''assistant'' (Str ''Hi!''),
              Message ''user'' (Str ''[File attached: f1] hello''),
              Message ''assistant'' (Str ''Done.'')])"
  by code_simp

text \<open>
  Claim C9 says that a second reconciliation with the same input leaves the user turn as
  the first made it. The number of user messages does stay (lemma
  \<open>reconcile_twice_user_count\<close>), but after the branch of lines 688 to 705 has stored
  the input with its marker, the second reconciliation takes the other branch and
  rewrites the content to a file part and the stripped text.
\<close>

theorem second_reconciliation_changes_user_turn:
  "reconcile ''P'' ''[File attached: f1] hello'' None [Message ''assistant'' (Str ''Hi!'')] =
     [Message ''system'' (Str ''P''), Message ''assistant'' (Str ''Hi!''),
      Message ''user'' (Str ''[File attached: f1] hello'')] \<and>
   reconcile ''P'' ''[File attached: f1] hello'' None
     (reconcile ''P'' ''[File attached: f1] hello'' None [Message ''assistant'' (Str ''Hi!'')]) =
     [Message ''system'' (Str ''P''), Message ''assistant'' (Str ''Hi!''),
      Message ''user'' (Parts [InputFile ''f1'', InputText ''hello''])]"
  by code_simp

end
